theory Spec2Isabelle
  imports Main "HOL-Library.Sublist" "HOL-Library.AList"
begin

section \<open>Values and Python string primitives\<close>

text \<open>
  The request body is a JSON object. Its scalar members are modelled by \<open>jval\<close>
  (null, booleans, integers and strings); the two list-valued members (attachments,
  checks) have fields of their own in the request record below. Strings are lists of
  8-bit characters, read as code points 0 to 255.
\<close>

datatype jval = JNull | JBool bool | JInt int | JStr string

datatype pyerr =
    KeyError string
  | TypeError
  | ValueError
  | AttributeError
  | IndexError
  | GithubException nat
  | OtherError

text \<open>Python's \<open>str(n)\<close> for an integer: decimal digits, with a sign when negative.\<close>

definition digit_char :: "nat \<Rightarrow> char" where
  "digit_char d = ''0123456789'' ! d"

function str_nat :: "nat \<Rightarrow> string" where
  "str_nat n = (if n < 10 then [digit_char n] else str_nat (n div 10) @ [digit_char (n mod 10)])"
  by pat_completeness auto
termination
  by (relation "measure id") auto

declare str_nat.simps [simp del]

definition str_int :: "int \<Rightarrow> string" where
  "str_int i = (if i < 0 then CHR ''-'' # str_nat (nat (- i)) else str_nat (nat i))"

text \<open>What an f-string puts in for \<open>{v}\<close>: \<open>str(v)\<close>.\<close>

fun py_str :: "jval \<Rightarrow> string" where
  "py_str JNull = ''None''"
| "py_str (JBool b) = (if b then ''True'' else ''False'')"
| "py_str (JInt i) = str_int i"
| "py_str (JStr s) = s"

text \<open>Python's \<open>==\<close> between two such values: a boolean equals the integer 0 or 1.\<close>

fun py_eq :: "jval \<Rightarrow> jval \<Rightarrow> bool" where
  "py_eq (JBool a) (JInt i) = ((if a then 1 else 0) = i)"
| "py_eq (JInt i) (JBool a) = ((if a then 1 else 0) = i)"
| "py_eq a b = (a = b)"

text \<open>Truthiness, as \<open>if v\<close>, \<open>not v\<close> and \<open>v or d\<close> read it.\<close>

fun truthy :: "jval \<Rightarrow> bool" where
  "truthy JNull = False"
| "truthy (JBool b) = b"
| "truthy (JInt i) = (i \<noteq> 0)"
| "truthy (JStr s) = (s \<noteq> [])"

subsection \<open>String methods\<close>

definition startswith :: "string \<Rightarrow> string \<Rightarrow> bool" where
  "startswith s p = prefix p s"

definition endswith :: "string \<Rightarrow> string \<Rightarrow> bool" where
  "endswith s p = suffix p s"

text \<open>
  \<open>split_once sep s\<close> cuts \<open>s\<close> at the first occurrence of \<open>sep\<close>: the text before and
  the text after it, or None when \<open>sep\<close> does not occur. The separators of the source
  are non-empty literals. \<open>sep in s\<close> is \<open>split_once sep s \<noteq> None\<close>, and
  \<open>s.split(sep, 1)\<close> has two parts exactly when it is \<open>Some\<close>.
\<close>

fun split_once :: "string \<Rightarrow> string \<Rightarrow> (string \<times> string) option" where
  "split_once sep [] = None"
| "split_once sep (c # cs) =
     (if prefix sep (c # cs) then Some ([], drop (length sep) (c # cs))
      else (case split_once sep cs of
              None \<Rightarrow> None
            | Some (a, b) \<Rightarrow> Some (c # a, b)))"

definition contains :: "string \<Rightarrow> string \<Rightarrow> bool" where
  "contains sep s = (split_once sep s \<noteq> None)"

text \<open>\<open>s.split(sep)\<close>: every part, left to right.\<close>

function py_split :: "string \<Rightarrow> string \<Rightarrow> string list" where
  "py_split sep s =
     (case split_once sep s of
        None \<Rightarrow> [s]
      | Some (a, b) \<Rightarrow> (if length b < length s then a # py_split sep b else [a, b]))"
  by pat_completeness auto
termination
  by (relation "measure (\<lambda>(sep, s). length s)") auto

declare py_split.simps [simp del]

text \<open>\<open>s.replace(old, new)\<close> for a non-empty \<open>old\<close>: non-overlapping, left to right.\<close>

function py_replace :: "string \<Rightarrow> string \<Rightarrow> string \<Rightarrow> string" where
  "py_replace old new s =
     (if s = [] \<or> old = [] then s
      else if prefix old s then new @ py_replace old new (drop (length old) s)
      else hd s # py_replace old new (tl s))"
  by pat_completeness auto
termination
  by (relation "measure (\<lambda>(old, new, s). length s)") auto

declare py_replace.simps [simp del]

text \<open>\<open>sep.join(xs)\<close>.\<close>

fun py_join :: "string \<Rightarrow> string list \<Rightarrow> string" where
  "py_join sep [] = []"
| "py_join sep [x] = x"
| "py_join sep (x # y # ys) = x @ sep @ py_join sep (y # ys)"

text \<open>\<open>str.isspace\<close> on the code points 0 to 255, and \<open>s.strip()\<close>.\<close>

definition is_space :: "char \<Rightarrow> bool" where
  "is_space c = (of_char c \<in> {9, 10, 11, 12, 13, 28, 29, 30, 31, 32, 133, 160 :: nat})"

definition py_strip :: "string \<Rightarrow> string" where
  "py_strip s = rev (dropWhile is_space (rev (dropWhile is_space s)))"

text \<open>\<open>os.path.basename\<close>: what follows the last slash.\<close>

definition basename :: "string \<Rightarrow> string" where
  "basename p = rev (takeWhile (\<lambda>c. c \<noteq> CHR ''/'') (rev p))"

text \<open>The two-character string backslash, n (Python's \<^verbatim>\<open>"\\n"\<close>), and the newline.\<close>

definition backslash_n :: string where
  "backslash_n = [CHR 0x5C, CHR ''n'']"

definition nl :: string where
  "nl = [CHR 0x0A]"

section \<open>Requests, outcomes and the ledger (main.py)\<close>

text \<open>
  An entry of the attachments array: a JSON object with scalar members (name, url), or
  a value that is not an object.
\<close>

datatype attachment = AttObj "(string \<times> jval) list" | AttOther jval

text \<open>
  \<open>members\<close> holds the scalar members of the body by name (secret, email, task, round,
  nonce, brief, evaluation_url); a member that is absent has no entry.
\<close>

record request =
  members :: "(string \<times> jval) list"
  attachments :: "attachment list option"
  checks :: "jval list option"

text \<open>\<open>data[k]\<close> raises KeyError on a missing key; \<open>data.get(k)\<close> gives None.\<close>

definition py_index :: "request \<Rightarrow> string \<Rightarrow> pyerr + jval" where
  "py_index data k = (case map_of (members data) k of None \<Rightarrow> Inl (KeyError k) | Some v \<Rightarrow> Inr v)"

definition py_get :: "request \<Rightarrow> string \<Rightarrow> jval" where
  "py_get data k = (case map_of (members data) k of None \<Rightarrow> JNull | Some v \<Rightarrow> v)"

definition py_get_default :: "request \<Rightarrow> string \<Rightarrow> jval \<Rightarrow> jval" where
  "py_get_default data k d = (case map_of (members data) k of None \<Rightarrow> d | Some v \<Rightarrow> v)"

text \<open>
  The identity key, main.py lines 150 and 184:
  \<^verbatim>\<open>f"{email}::{task}::round{round}::nonce{nonce}"\<close>.
\<close>

definition key_of :: "jval \<Rightarrow> jval \<Rightarrow> jval \<Rightarrow> jval \<Rightarrow> string" where
  "key_of e t r n =
     py_str e @ ''::'' @ py_str t @ ''::round'' @ py_str r @ ''::nonce'' @ py_str n"

text \<open>The Round Outcome: the payload of main.py lines 133 to 141.\<close>

record outcome =
  o_email :: jval
  o_task :: jval
  o_round :: jval
  o_nonce :: jval
  o_repo_url :: string
  o_commit_sha :: "string option"
  o_pages_url :: "string option"

text \<open>
  The ledger file \<^verbatim>\<open>/tmp/processed_requests.json\<close>: absent, not parseable as JSON, or a
  dictionary from keys to outcomes. Reading and rewriting this local file is taken to
  succeed.
\<close>

datatype ledger_file = NoFile | BadJson | Stored "(string \<times> outcome) list"

fun load_processed :: "ledger_file \<Rightarrow> (string \<times> outcome) list" where
  "load_processed NoFile = []"
| "load_processed BadJson = []"
| "load_processed (Stored d) = d"

definition save_processed :: "(string \<times> outcome) list \<Rightarrow> ledger_file" where
  "save_processed d = Stored d"

section \<open>The outside world\<close>

text \<open>A decoded attachment, as \<open>decode_attachments\<close> records it.\<close>

record saved =
  s_name :: string
  s_path :: string
  s_mime :: string
  s_size :: nat

text \<open>
  The prompt sent to the generator is a fixed template with five insertions; the
  template's constant text is not reproduced.
\<close>

record prompt =
  p_round :: jval
  p_brief :: jval
  p_context :: string
  p_meta :: string
  p_checks :: "jval list"

record repo =
  full_name :: string
  html_url :: string

record contents =
  c_sha :: string
  c_text :: string

text \<open>A parsed JSON document, as the generator service answers with.\<close>

datatype json = Scalar jval | JArr "json list" | JObj "(string \<times> json) list"

datatype gen_outcome = GenRaises | GenJson json

text \<open>
  Every call that leaves the process, and every write, is an event of the trace. The
  flag of \<open>EvNotify\<close> says whether the notifier returned (true) or raised.
\<close>

datatype event =
    EvFsWrite string string
  | EvFsRead string
  | EvLocalWrite string string
  | EvGetRepo jval
  | EvCreateRepo jval string
  | EvGetContents string
  | EvUpdateFile string string string
  | EvCreateFile string string string
  | EvPagesPost string
  | EvGetCommits
  | EvGenerate prompt
  | EvNotify jval outcome bool
  | EvLedgerRead
  | EvLedgerWrite "(string \<times> outcome) list"
  | EvSchedule request

text \<open>
  The collaborators answer as they please: each is a function of the trace so far and
  of the call's arguments. \<open>Inl\<close> or \<open>Some\<close> of an error is the call raising it.
  \<open>notify\<close> stands for \<open>app.notify.notify_evaluation_server\<close>, whose module is not
  among the sources.
\<close>

record env =
  fs_write :: "event list \<Rightarrow> string \<Rightarrow> string \<Rightarrow> bool"
  fs_read :: "event list \<Rightarrow> string \<Rightarrow> pyerr + string"
  read_preview :: "event list \<Rightarrow> string \<Rightarrow> string + string"
  gh_get_repo :: "event list \<Rightarrow> jval \<Rightarrow> pyerr + repo"
  gh_create_repo :: "event list \<Rightarrow> jval \<Rightarrow> string \<Rightarrow> pyerr + repo"
  gh_get_contents :: "event list \<Rightarrow> repo \<Rightarrow> string \<Rightarrow> pyerr + contents"
  gh_update_file :: "event list \<Rightarrow> repo \<Rightarrow> string \<Rightarrow> string \<Rightarrow> string \<Rightarrow> string \<Rightarrow> pyerr option"
  gh_create_file :: "event list \<Rightarrow> repo \<Rightarrow> string \<Rightarrow> string \<Rightarrow> string \<Rightarrow> pyerr option"
  gh_get_commits :: "event list \<Rightarrow> repo \<Rightarrow> pyerr + string"
  pages_post :: "event list \<Rightarrow> string \<Rightarrow> pyerr + nat"
  gen_post :: "event list \<Rightarrow> prompt \<Rightarrow> gen_outcome"
  notify :: "event list \<Rightarrow> jval \<Rightarrow> outcome \<Rightarrow> pyerr option"

text \<open>Library functions taken as given: base64, pathlib's join, UTF-8 decoding, the clock.\<close>

record pylib =
  b64decode :: "string \<Rightarrow> string option"
  b64encode :: "string \<Rightarrow> string"
  tmp_path :: "string \<Rightarrow> string"
  utf8_decode :: "string \<Rightarrow> string"
  utc_year :: nat

text \<open>The environment variables read at import time.\<close>

record config =
  USER_SECRET :: "string option"
  USERNAME :: "string option"

definition env_str :: "string option \<Rightarrow> string" where
  "env_str v = (case v of None \<Rightarrow> ''None'' | Some s \<Rightarrow> s)"

section \<open>The generator adapter (llm\_generator.py)\<close>

subsection \<open>decode\_attachments, lines 16 to 33\<close>

text \<open>
  One pass of the loop body. Lines 19 to 21 are outside the \<open>try\<close>: \<open>att.get\<close> on an
  entry that is not an object, and \<open>url.startswith\<close> on a url that is not a string (a
  JSON null, a number), raise AttributeError, which ends the loop and the function.
  Otherwise the result is the entry appended to \<open>saved\<close>, or None when the entry is
  skipped by \<open>continue\<close> or by the \<open>except\<close> clause. Inside the \<open>try\<close>, joining the
  directory with a name that is not a string raises TypeError.
\<close>

definition decode_one ::
  "pylib \<Rightarrow> env \<Rightarrow> event list \<Rightarrow> attachment \<Rightarrow> (pyerr + saved option) \<times> event list" where
  "decode_one lib world h att =
     (case att of
        AttOther v \<Rightarrow> (Inl AttributeError, [])
      | AttObj m \<Rightarrow>
          (let nv = (case map_of m ''name'' of None \<Rightarrow> JNull | Some v \<Rightarrow> v);
               name = (if truthy nv then nv else JStr ''attachment'');
               uv = (case map_of m ''url'' of None \<Rightarrow> JStr [] | Some v \<Rightarrow> v)
           in (case uv of
                 JStr url \<Rightarrow>
                   if \<not> startswith url ''data:'' then (Inr None, [])
                   else (case split_once '','' url of
                           None \<Rightarrow> (Inr None, [])
                         | Some (header, b64data) \<Rightarrow>
                             (let mime = py_replace ''data:'' [] (hd (py_split '';'' header))
                              in (case b64decode lib b64data of
                                    None \<Rightarrow> (Inr None, [])
                                  | Some bytes \<Rightarrow>
                                      (case name of
                                         JStr n \<Rightarrow>
                                           (let path = tmp_path lib n
                                            in if fs_write world h path bytes
                                               then (Inr (Some \<lparr>s_name = n, s_path = path,
                                                                 s_mime = mime,
                                                                 s_size = length bytes\<rparr>),
                                                     [EvFsWrite path bytes])
                                               else (Inr None, [EvFsWrite path bytes]))
                                       | _ \<Rightarrow> (Inr None, [])))))
               | _ \<Rightarrow> (Inl AttributeError, []))))"

fun decode_loop ::
  "pylib \<Rightarrow> env \<Rightarrow> event list \<Rightarrow> attachment list \<Rightarrow> (pyerr + saved list) \<times> event list" where
  "decode_loop lib world h [] = (Inr [], [])"
| "decode_loop lib world h (att # atts) =
     (case decode_one lib world h att of
        (Inl e, ev) \<Rightarrow> (Inl e, ev)
      | (Inr entry, ev) \<Rightarrow>
          (case decode_loop lib world (h @ ev) atts of
             (Inl e, evs) \<Rightarrow> (Inl e, ev @ evs)
           | (Inr others, evs) \<Rightarrow>
               (Inr (case entry of None \<Rightarrow> others | Some e \<Rightarrow> e # others), ev @ evs)))"

definition decode_attachments ::
  "pylib \<Rightarrow> env \<Rightarrow> event list \<Rightarrow> attachment list option
     \<Rightarrow> (pyerr + saved list) \<times> event list" where
  "decode_attachments lib world h atts =
     decode_loop lib world h (case atts of None \<Rightarrow> [] | Some xs \<Rightarrow> xs)"

subsection \<open>summarize\_attachment\_meta, lines 35 to 50\<close>

definition text_like :: "string \<Rightarrow> string \<Rightarrow> string list \<Rightarrow> bool" where
  "text_like mime nm exts = (startswith mime ''text'' \<or> list_ex (endswith nm) exts)"

definition summarize_one :: "env \<Rightarrow> event list \<Rightarrow> saved \<Rightarrow> string \<times> event list" where
  "summarize_one world h s =
     (let nm = s_name s; p = s_path s; mime = s_mime s;
          lead = ''- '' @ nm @ '' ('' @ mime @ ''): ''
      in if text_like mime nm [''.md'', ''.txt'', ''.json'', ''.csv'']
         then (case read_preview world h p of
                 Inr txt \<Rightarrow>
                   (lead @ ''preview: '' @ take 1000 (py_replace nl backslash_n txt), [EvFsRead p])
               | Inl msg \<Rightarrow>
                   (lead @ ''(could not read preview: '' @ msg @ '')'', [EvFsRead p]))
         else (lead @ str_nat (s_size s) @ '' bytes'', []))"

fun summarize_loop :: "env \<Rightarrow> event list \<Rightarrow> saved list \<Rightarrow> string list \<times> event list" where
  "summarize_loop world h [] = ([], [])"
| "summarize_loop world h (s # ss) =
     (case summarize_one world h s of
        (line, ev) \<Rightarrow>
          (case summarize_loop world (h @ ev) ss of
             (others, evs) \<Rightarrow> (line # others, ev @ evs)))"

definition summarize_attachment_meta :: "env \<Rightarrow> event list \<Rightarrow> saved list \<Rightarrow> string \<times> event list" where
  "summarize_attachment_meta world h ss =
     (case summarize_loop world h ss of (ls, evs) \<Rightarrow> (py_join backslash_n ls, evs))"

subsection \<open>Helpers, lines 55 to 81\<close>

definition fence :: string where
  "fence = ''```''"

definition strip_code_block :: "string \<Rightarrow> string" where
  "strip_code_block txt =
     (if contains fence txt
      then (let parts = py_split fence txt
            in if length parts \<ge> 2 then py_strip (parts ! 1) else py_strip txt)
      else py_strip txt)"

text \<open>
  \<^verbatim>\<open>"\\n".join(checks or [])\<close>: joining raises TypeError when an item is not a string.
\<close>

fun str_items :: "jval list \<Rightarrow> pyerr + string list" where
  "str_items [] = Inr []"
| "str_items (JStr s # vs) =
     (case str_items vs of Inl e \<Rightarrow> Inl e | Inr ss \<Rightarrow> Inr (s # ss))"
| "str_items (v # vs) = Inl TypeError"

definition generate_readme_fallback ::
  "jval \<Rightarrow> jval list option \<Rightarrow> string \<Rightarrow> jval \<Rightarrow> pyerr + string" where
  "generate_readme_fallback brief chks attachments_meta round_num =
     (case str_items (case chks of None \<Rightarrow> [] | Some cs \<Rightarrow> cs) of
        Inl e \<Rightarrow> Inl e
      | Inr items \<Rightarrow>
          (let checks_text = py_join backslash_n items;
               att_text = attachments_meta
           in Inr (''# Auto-generated README (Round '' @ py_str round_num @ '')'' @ nl @ nl
                   @ ''**Project brief:** '' @ py_str brief @ nl @ nl
                   @ ''**Attachments:**'' @ nl @ att_text @ nl @ nl
                   @ ''**Checks to meet:**'' @ nl @ checks_text @ nl @ nl
                   @ ''## Setup'' @ nl
                   @ ''1. Open `index.html` in a browser.'' @ nl
                   @ ''2. No build steps required.'' @ nl @ nl
                   @ ''## Notes'' @ nl
                   @ ''This README was generated as a fallback (AI Pipe did not return an explicit README).''
                   @ nl)))"

subsection \<open>Reading the generator's answer, lines 141 to 149\<close>

fun json_truthy :: "json \<Rightarrow> bool" where
  "json_truthy (Scalar v) = truthy v"
| "json_truthy (JArr xs) = (xs \<noteq> [])"
| "json_truthy (JObj kv) = (kv \<noteq> [])"

text \<open>\<open>len(v)\<close>, \<open>v[i]\<close> for an integer \<open>i\<close>, \<open>k in v\<close> and \<open>v[k]\<close> for a string \<open>k\<close>.\<close>

fun py_len :: "json \<Rightarrow> pyerr + nat" where
  "py_len (Scalar (JStr s)) = Inr (length s)"
| "py_len (Scalar v) = Inl TypeError"
| "py_len (JArr xs) = Inr (length xs)"
| "py_len (JObj kv) = Inr (length kv)"

fun py_item :: "json \<Rightarrow> nat \<Rightarrow> pyerr + json" where
  "py_item (Scalar (JStr s)) i = (if i < length s then Inr (Scalar (JStr [s ! i])) else Inl IndexError)"
| "py_item (Scalar v) i = Inl TypeError"
| "py_item (JArr xs) i = (if i < length xs then Inr (xs ! i) else Inl IndexError)"
| "py_item (JObj kv) i = Inl (KeyError (str_nat i))"

fun json_contains :: "string \<Rightarrow> json \<Rightarrow> pyerr + bool" where
  "json_contains k (Scalar (JStr s)) = Inr (contains k s)"
| "json_contains k (Scalar v) = Inl TypeError"
| "json_contains k (JArr xs) = Inr (Scalar (JStr k) \<in> set xs)"
| "json_contains k (JObj kv) = Inr (map_of kv k \<noteq> None)"

fun py_lookup :: "json \<Rightarrow> string \<Rightarrow> pyerr + json" where
  "py_lookup (JObj kv) k = (case map_of kv k of None \<Rightarrow> Inl (KeyError k) | Some v \<Rightarrow> Inr v)"
| "py_lookup v k = Inl TypeError"

definition empty_text :: json where
  "empty_text = Scalar (JStr [])"

text \<open>\<open>message_block["content"][0].get("text", "")\<close>, once the two guards passed.\<close>

definition first_text :: "json \<Rightarrow> pyerr + json" where
  "first_text mb =
     (case py_lookup mb ''content'' of
        Inl e \<Rightarrow> Inl e
      | Inr c \<Rightarrow>
          (case py_len c of
             Inl e \<Rightarrow> Inl e
           | Inr m \<Rightarrow>
               if m = 0 then Inr empty_text
               else (case py_item c 0 of
                       Inl e \<Rightarrow> Inl e
                     | Inr (JObj kv) \<Rightarrow>
                         Inr (case map_of kv ''text'' of None \<Rightarrow> empty_text | Some t \<Rightarrow> t)
                     | Inr _ \<Rightarrow> Inl AttributeError)))"

definition extract_text :: "json \<Rightarrow> pyerr + json" where
  "extract_text resp_json =
     (case resp_json of
        JObj kv \<Rightarrow>
          (let out = (case map_of kv ''output'' of None \<Rightarrow> Scalar JNull | Some v \<Rightarrow> v)
           in if \<not> json_truthy out then Inr empty_text
              else (case py_len out of
                      Inl e \<Rightarrow> Inl e
                    | Inr n \<Rightarrow>
                        if \<not> n > 1 then Inr empty_text
                        else (case py_item out 1 of
                                Inl e \<Rightarrow> Inl e
                              | Inr mb \<Rightarrow>
                                  (case json_contains ''content'' mb of
                                     Inl e \<Rightarrow> Inl e
                                   | Inr False \<Rightarrow> Inr empty_text
                                   | Inr True \<Rightarrow> first_text mb))))
      | _ \<Rightarrow> Inl AttributeError)"

text \<open>
  The \<open>try\<close> block of lines 127 to 149: the text it binds, or the exception that sends
  control to the fallback. \<open>GenRaises\<close> is the request timing out or failing, a non-2xx
  status, or a body that is not JSON.
\<close>

definition try_generate :: "gen_outcome \<Rightarrow> pyerr + json" where
  "try_generate r =
     (case r of
        GenRaises \<Rightarrow> Inl OtherError
      | GenJson j \<Rightarrow>
          (case extract_text j of
             Inl e \<Rightarrow> Inl e
           | Inr t \<Rightarrow> if \<not> json_truthy t then Inl ValueError else Inr t))"

subsection \<open>generate\_app\_code, lines 86 to 188\<close>

definition marker :: string where
  "marker = ''---README.md---''"

definition fallback_text :: "jval \<Rightarrow> string \<Rightarrow> string" where
  "fallback_text brief readme =
     nl @ ''<html>'' @ nl
     @ ''  <head><title>Fallback App</title></head>'' @ nl
     @ ''  <body>'' @ nl
     @ ''    <h1>Hello (fallback)</h1>'' @ nl
     @ ''    <p>This app was generated as a fallback because AI Pipe failed. Brief: ''
     @ py_str brief @ ''</p>'' @ nl
     @ ''  </body>'' @ nl
     @ ''</html>'' @ nl @ nl
     @ marker @ nl
     @ readme @ nl"

text \<open>
  Lines 169 to 175. The text is whatever the answer held under \<open>text\<close>: on a value that
  is not a string, \<open>in\<close>, \<open>split\<close> or \<open>strip\<close> raises. Without the marker the README is
  the fallback README, whose construction can raise.
\<close>

fun split_parts :: "json \<Rightarrow> pyerr + string \<Rightarrow> pyerr + string \<times> string" where
  "split_parts (Scalar (JStr s)) readme_fb =
     (case split_once marker s of
        Some (code_part, readme_part) \<Rightarrow>
          Inr (strip_code_block code_part, strip_code_block readme_part)
      | None \<Rightarrow>
          (case readme_fb of Inl e \<Rightarrow> Inl e | Inr fb \<Rightarrow> Inr (strip_code_block s, fb)))"
| "split_parts (Scalar v) readme_fb = Inl TypeError"
| "split_parts (JArr xs) readme_fb = Inl AttributeError"
| "split_parts (JObj kv) readme_fb = Inl AttributeError"

record gen_result =
  g_files :: "(string \<times> string) list"
  g_attachments :: "saved list"

definition context_note :: "jval \<Rightarrow> string option \<Rightarrow> string" where
  "context_note round_num prev_readme =
     (case prev_readme of
        Some r \<Rightarrow>
          if py_eq round_num (JInt 2) \<and> r \<noteq> []
          then nl @ ''### Previous README.md:'' @ nl @ r @ nl @ nl
               @ ''Revise and enhance this project according to the new brief below.'' @ nl
          else []
      | None \<Rightarrow> [])"

text \<open>
  The text after the \<open>try\<close>/\<open>except\<close> of lines 127 to 164: the generator's text, or the
  fallback page built in the \<open>except\<close> clause, where the fallback README is formatted
  and can raise.
\<close>

definition text_after_try :: "pyerr + json \<Rightarrow> jval \<Rightarrow> pyerr + string \<Rightarrow> pyerr + json" where
  "text_after_try tried brief readme_fb =
     (case tried of
        Inr t \<Rightarrow> Inr t
      | Inl e \<Rightarrow>
          (case readme_fb of
             Inl err \<Rightarrow> Inl err
           | Inr fb \<Rightarrow> Inr (Scalar (JStr (fallback_text brief fb)))))"

definition generate_app_code ::
  "pylib \<Rightarrow> env \<Rightarrow> event list \<Rightarrow> jval \<Rightarrow> attachment list option \<Rightarrow> jval list option
     \<Rightarrow> jval \<Rightarrow> string option \<Rightarrow> (pyerr + gen_result) \<times> event list" where
  "generate_app_code lib world h brief atts chks round_num prev_readme =
     (case decode_attachments lib world h atts of
        (Inl e, e1) \<Rightarrow> (Inl e, e1)
      | (Inr saved_atts, e1) \<Rightarrow>
          (case summarize_attachment_meta world (h @ e1) saved_atts of
             (attachments_meta, e2) \<Rightarrow>
               (let pr = \<lparr>p_round = round_num, p_brief = brief,
                          p_context = context_note round_num prev_readme,
                          p_meta = attachments_meta,
                          p_checks = (case chks of None \<Rightarrow> [] | Some cs \<Rightarrow> cs)\<rparr>;
                    e3 = e1 @ e2 @ [EvGenerate pr];
                    readme_fb = generate_readme_fallback brief chks attachments_meta round_num
                in (case text_after_try (try_generate (gen_post world (h @ e1 @ e2) pr))
                           brief readme_fb of
                      Inl e \<Rightarrow> (Inl e, e3)
                    | Inr txt \<Rightarrow>
                        (case split_parts txt readme_fb of
                           Inl e \<Rightarrow> (Inl e, e3)
                         | Inr (code_part, readme_part) \<Rightarrow>
                             (Inr \<lparr>g_files = [(''index.html'', code_part),
                                              (''README.md'', readme_part)],
                                   g_attachments = saved_atts\<rparr>,
                              e3 @ [EvLocalWrite ''generated_app/index.html'' code_part,
                                    EvLocalWrite ''generated_app/README.md'' readme_part]))))))"

section \<open>The repository host (github\_utils.py)\<close>

text \<open>create\_repo, lines 18 to 38: an existing repository is returned, a 404 creates one.\<close>

definition create_repo :: "env \<Rightarrow> event list \<Rightarrow> jval \<Rightarrow> string \<Rightarrow> (pyerr + repo) \<times> event list" where
  "create_repo world h repo_name description =
     (case gh_get_repo world h repo_name of
        Inr r \<Rightarrow> (Inr r, [EvGetRepo repo_name])
      | Inl (GithubException st) \<Rightarrow>
          if st \<noteq> 404 then (Inl (GithubException st), [EvGetRepo repo_name])
          else (gh_create_repo world (h @ [EvGetRepo repo_name]) repo_name description,
                [EvGetRepo repo_name, EvCreateRepo repo_name description])
      | Inl e \<Rightarrow> (Inl e, [EvGetRepo repo_name]))"

text \<open>
  create\_or\_update\_file, lines 44 to 57. The \<open>except\<close> clause covers both the lookup
  and the update; it creates the file on a 404 and re-raises any other status. An
  exception that is not a GithubException passes through.
\<close>

definition on_github_error ::
  "env \<Rightarrow> event list \<Rightarrow> repo \<Rightarrow> string \<Rightarrow> string \<Rightarrow> string \<Rightarrow> pyerr \<Rightarrow> event list
     \<Rightarrow> pyerr option \<times> event list" where
  "on_github_error world h rp path message content e evs =
     (case e of
        GithubException st \<Rightarrow>
          if st = 404
          then (gh_create_file world (h @ evs) rp path message content,
                evs @ [EvCreateFile path message content])
          else (Some e, evs)
      | _ \<Rightarrow> (Some e, evs))"

definition create_or_update_file ::
  "env \<Rightarrow> event list \<Rightarrow> repo \<Rightarrow> string \<Rightarrow> string \<Rightarrow> string \<Rightarrow> pyerr option \<times> event list" where
  "create_or_update_file world h rp path content message =
     (case gh_get_contents world h rp path of
        Inl e \<Rightarrow> on_github_error world h rp path message content e [EvGetContents path]
      | Inr existing \<Rightarrow>
          (case gh_update_file world (h @ [EvGetContents path]) rp path message content
                  (c_sha existing) of
             None \<Rightarrow> (None, [EvGetContents path, EvUpdateFile path message content])
           | Some e \<Rightarrow>
               on_github_error world h rp path message content e
                 [EvGetContents path, EvUpdateFile path message content]))"

text \<open>
  create\_or\_update\_binary\_file, lines 60 to 88: the same for the bytes, then the
  base64 sidecar. In the sidecar's \<open>except\<close> clause a 404 creates the file, and what
  that call raises escapes; a GithubException with another status is dropped; an
  exception that is not a GithubException passes through.
\<close>

definition on_backup_error ::
  "env \<Rightarrow> event list \<Rightarrow> repo \<Rightarrow> string \<Rightarrow> string \<Rightarrow> string \<Rightarrow> pyerr \<Rightarrow> event list
     \<Rightarrow> pyerr option \<times> event list" where
  "on_backup_error world h rp path message content e evs =
     (case e of
        GithubException st \<Rightarrow>
          if st = 404
          then (gh_create_file world (h @ evs) rp path message content,
                evs @ [EvCreateFile path message content])
          else (None, evs)
      | _ \<Rightarrow> (Some e, evs))"

definition backup_sidecar ::
  "env \<Rightarrow> event list \<Rightarrow> repo \<Rightarrow> string \<Rightarrow> string \<Rightarrow> string \<Rightarrow> pyerr option \<times> event list" where
  "backup_sidecar world h rp path content message =
     (case gh_get_contents world h rp path of
        Inl e \<Rightarrow> on_backup_error world h rp path message content e [EvGetContents path]
      | Inr existing \<Rightarrow>
          (case gh_update_file world (h @ [EvGetContents path]) rp path message content
                  (c_sha existing) of
             None \<Rightarrow> (None, [EvGetContents path, EvUpdateFile path message content])
           | Some e \<Rightarrow>
               on_backup_error world h rp path message content e
                 [EvGetContents path, EvUpdateFile path message content]))"

definition create_or_update_binary_file ::
  "pylib \<Rightarrow> env \<Rightarrow> event list \<Rightarrow> repo \<Rightarrow> string \<Rightarrow> string \<Rightarrow> string
     \<Rightarrow> pyerr option \<times> event list" where
  "create_or_update_binary_file lib world h rp path binary_content commit_message =
     (case create_or_update_file world h rp path binary_content commit_message of
        (Some e, e1) \<Rightarrow> (Some e, e1)
      | (None, e1) \<Rightarrow>
          (let backup_path = ''attachments/'' @ basename path @ ''.b64''
           in (case backup_sidecar world (h @ e1) rp backup_path
                       (b64encode lib binary_content) (''Backup '' @ path) of
                 (r, e2) \<Rightarrow> (r, e1 @ e2))))"

text \<open>enable\_pages, lines 94 to 115: true on 201, 204 or 202; it never raises.\<close>

definition enable_pages :: "config \<Rightarrow> env \<Rightarrow> event list \<Rightarrow> jval \<Rightarrow> bool \<times> event list" where
  "enable_pages cfg world h repo_name =
     (let url = ''https://api.github.com/repos/'' @ env_str (USERNAME cfg) @ ''/''
                @ py_str repo_name @ ''/pages''
      in (case pages_post world h url of
            Inr status \<Rightarrow> (status \<in> {201, 204, 202}, [EvPagesPost url])
          | Inl e \<Rightarrow> (False, [EvPagesPost url])))"

text \<open>generate\_mit\_license, lines 121 to 145; \<open>mit_terms\<close> is the fixed text of the grant.\<close>

definition mit_terms :: string where
  "mit_terms =
     ''Permission is hereby granted, free of charge, to any person obtaining a copy'' @ nl
     @ ''of this software and associated documentation files (the '' @ [CHR 0x22] @ ''Software''
     @ [CHR 0x22] @ ''), to deal'' @ nl
     @ ''in the Software without restriction, including without limitation the rights'' @ nl
     @ ''to use, copy, modify, merge, publish, distribute, sublicense, and/or sell'' @ nl
     @ ''copies of the Software, and to permit persons to whom the Software is'' @ nl
     @ ''furnished to do so, subject to the following conditions:'' @ nl @ nl
     @ ''The above copyright notice and this permission notice shall be included in all'' @ nl
     @ ''copies or substantial portions of the Software.'' @ nl @ nl
     @ ''THE SOFTWARE IS PROVIDED '' @ [CHR 0x22] @ ''AS IS'' @ [CHR 0x22]
     @ '', WITHOUT WARRANTY OF ANY KIND, EXPRESS OR'' @ nl
     @ ''IMPLIED, INCLUDING BUT NOT LIMITED TO THE WARRANTIES OF MERCHANTABILITY,'' @ nl
     @ ''FITNESS FOR A PARTICULAR PURPOSE AND NONINFRINGEMENT. IN NO EVENT SHALL THE'' @ nl
     @ ''AUTHORS OR COPYRIGHT HOLDERS BE LIABLE FOR ANY CLAIM, DAMAGES OR OTHER'' @ nl
     @ ''LIABILITY, WHETHER IN AN ACTION OF CONTRACT, TORT OR OTHERWISE, ARISING FROM,'' @ nl
     @ ''OUT OF OR IN CONNECTION WITH THE SOFTWARE OR THE USE OR OTHER DEALINGS IN THE'' @ nl
     @ ''SOFTWARE.'' @ nl"

definition generate_mit_license :: "config \<Rightarrow> pylib \<Rightarrow> string" where
  "generate_mit_license cfg lib =
     (let owner = (case USERNAME cfg of None \<Rightarrow> ''Owner''
                   | Some u \<Rightarrow> if u = [] then ''Owner'' else u)
      in ''MIT License'' @ nl @ nl
         @ ''Copyright (c) '' @ str_nat (utc_year lib) @ '' '' @ owner @ nl @ nl
         @ mit_terms)"

section \<open>The pipeline (main.py, process\_request)\<close>

text \<open>
  What one run of the background task leaves behind: the events in order, the ledger
  file, and the exception that ended the task, if one escaped.
\<close>

record run =
  r_events :: "event list"
  r_ledger :: ledger_file
  r_raised :: "pyerr option"

text \<open>
  Step 1, lines 50 to 54. The description is formatted before the call, so a missing
  brief raises inside the \<open>try\<close>, before the host is contacted.
\<close>

definition acquire :: "env \<Rightarrow> event list \<Rightarrow> request \<Rightarrow> jval \<Rightarrow> (pyerr + repo) \<times> event list" where
  "acquire world h data task_id =
     (case py_index data ''brief'' of
        Inl e \<Rightarrow> (Inl e, [])
      | Inr brief \<Rightarrow>
          create_repo world h task_id (''Auto-generated app for task: '' @ py_str brief))"

text \<open>Lines 57 to 64: the previous README, on round 2 only.\<close>

definition fetch_prev_readme :: "env \<Rightarrow> event list \<Rightarrow> repo \<Rightarrow> jval \<Rightarrow> string option \<times> event list" where
  "fetch_prev_readme world h rp round_num =
     (if py_eq round_num (JInt 2)
      then (case gh_get_contents world h rp ''README.md'' of
              Inr c \<Rightarrow> (Some (c_text c), [EvGetContents ''README.md''])
            | Inl e \<Rightarrow> (None, [EvGetContents ''README.md'']))
      else (None, []))"

text \<open>Lines 83 to 96: one attachment; every exception is caught and printed.\<close>

definition commit_attachment :: "pylib \<Rightarrow> env \<Rightarrow> event list \<Rightarrow> repo \<Rightarrow> saved \<Rightarrow> event list" where
  "commit_attachment lib world h rp att =
     (let name = s_name att; rd = [EvFsRead (s_path att)]
      in (case fs_read world h (s_path att) of
            Inl e \<Rightarrow> rd
          | Inr content_bytes \<Rightarrow>
              if text_like (s_mime att) name [''.md'', ''.csv'', ''.json'', ''.txt'']
              then rd @ snd (create_or_update_file world (h @ rd) rp (''attachments/'' @ name)
                               (utf8_decode lib content_bytes) (''Add attachment '' @ name))
              else (case create_or_update_binary_file lib world (h @ rd) rp
                           (''attachments/'' @ name) content_bytes (''Add binary '' @ name) of
                      (Some e, e1) \<Rightarrow> rd @ e1
                    | (None, e1) \<Rightarrow>
                        rd @ e1 @ snd (create_or_update_file world (h @ rd @ e1) rp
                                         (''attachments/'' @ name @ ''.b64'')
                                         (b64encode lib content_bytes)
                                         (''Backup '' @ name @ ''.b64'')))))"

fun commit_attachments :: "pylib \<Rightarrow> env \<Rightarrow> event list \<Rightarrow> repo \<Rightarrow> saved list \<Rightarrow> event list" where
  "commit_attachments lib world h rp [] = []"
| "commit_attachments lib world h rp (att # atts) =
     (let ev = commit_attachment lib world h rp att
      in ev @ commit_attachments lib world (h @ ev) rp atts)"

text \<open>Step 4, lines 102 to 106.\<close>

fun commit_files :: "env \<Rightarrow> event list \<Rightarrow> repo \<Rightarrow> jval \<Rightarrow> (string \<times> string) list \<Rightarrow> event list" where
  "commit_files world h rp round_num [] = []"
| "commit_files world h rp round_num ((fname, content) # fs) =
     (let ev = snd (create_or_update_file world h rp fname content
                      (''Add/Update '' @ fname @ '' for round '' @ py_str round_num))
      in ev @ commit_files world (h @ ev) rp round_num fs)"

text \<open>Step 5, lines 109 to 113.\<close>

definition commit_license :: "config \<Rightarrow> pylib \<Rightarrow> env \<Rightarrow> event list \<Rightarrow> repo \<Rightarrow> event list" where
  "commit_license cfg lib world h rp =
     snd (create_or_update_file world h rp ''LICENSE'' (generate_mit_license cfg lib)
            ''Add MIT license'')"

text \<open>Steps 3 to 5 together.\<close>

definition stage_commit ::
  "config \<Rightarrow> pylib \<Rightarrow> env \<Rightarrow> event list \<Rightarrow> repo \<Rightarrow> jval \<Rightarrow> gen_result \<Rightarrow> event list" where
  "stage_commit cfg lib world h rp round_num gen =
     (let ea = (if py_eq round_num (JInt 1)
                then commit_attachments lib world h rp (g_attachments gen) else []);
          ef = commit_files world (h @ ea) rp round_num (g_files gen);
          el = commit_license cfg lib world (h @ ea @ ef) rp
      in ea @ ef @ el)"

text \<open>Step 6, lines 116 to 124.\<close>

definition pages_url_of :: "config \<Rightarrow> jval \<Rightarrow> string" where
  "pages_url_of cfg task_id =
     ''https://'' @ env_str (USERNAME cfg) @ ''.github.io/'' @ py_str task_id @ ''/''"

definition stage_publish ::
  "config \<Rightarrow> env \<Rightarrow> event list \<Rightarrow> jval \<Rightarrow> jval \<Rightarrow> string option \<times> event list" where
  "stage_publish cfg world h round_num task_id =
     (if py_eq round_num (JInt 1)
      then (case enable_pages cfg world h task_id of
              (pages_ok, ev) \<Rightarrow>
                ((if pages_ok then Some (pages_url_of cfg task_id) else None), ev))
      else (Some (pages_url_of cfg task_id), []))"

text \<open>Step 7, lines 127 to 130.\<close>

definition latest_commit :: "env \<Rightarrow> event list \<Rightarrow> repo \<Rightarrow> string option \<times> event list" where
  "latest_commit world h rp =
     (case gh_get_commits world h rp of
        Inr sha \<Rightarrow> (Some sha, [EvGetCommits])
      | Inl e \<Rightarrow> (None, [EvGetCommits]))"

text \<open>Step 8, lines 133 to 141: the payload; a missing member raises KeyError.\<close>

definition build_payload ::
  "request \<Rightarrow> jval \<Rightarrow> repo \<Rightarrow> string option \<Rightarrow> string option \<Rightarrow> pyerr + outcome" where
  "build_payload data round_num rp commit_sha pages_url =
     (case py_index data ''email'' of
        Inl e \<Rightarrow> Inl e
      | Inr email \<Rightarrow>
          (case py_index data ''task'' of
             Inl e \<Rightarrow> Inl e
           | Inr task \<Rightarrow>
               (case py_index data ''nonce'' of
                  Inl e \<Rightarrow> Inl e
                | Inr nonce \<Rightarrow>
                    Inr \<lparr>o_email = email, o_task = task, o_round = round_num, o_nonce = nonce,
                         o_repo_url = html_url rp, o_commit_sha = commit_sha,
                         o_pages_url = pages_url\<rparr>)))"

text \<open>
  Lines 143 to 152: notify inside \<open>try\<close>, then read the ledger, set the key, write it
  back. The notifier's answer is not looked at.
\<close>

definition dispatch :: "env \<Rightarrow> event list \<Rightarrow> ledger_file \<Rightarrow> request \<Rightarrow> outcome \<Rightarrow> event list \<times> ledger_file" where
  "dispatch world h L data payload =
     (let processed = load_processed L;
          k = key_of (o_email payload) (o_task payload) (o_round payload) (o_nonce payload);
          processed' = AList.update k payload processed
      in ([EvNotify (py_get data ''evaluation_url'') payload
             (notify world h (py_get data ''evaluation_url'') payload = None),
           EvLedgerRead,
           EvLedgerWrite processed'],
          save_processed processed'))"

definition process_request ::
  "config \<Rightarrow> pylib \<Rightarrow> env \<Rightarrow> event list \<Rightarrow> ledger_file \<Rightarrow> request \<Rightarrow> run" where
  "process_request cfg lib world h L data =
     (let round_num = py_get_default data ''round'' (JInt 1)
      in (case py_index data ''task'' of
            Inl e \<Rightarrow> \<lparr>r_events = [], r_ledger = L, r_raised = Some e\<rparr>
          | Inr task_id \<Rightarrow>
              (case decode_attachments lib world h (attachments data) of
                 (Inl e, e1) \<Rightarrow> \<lparr>r_events = e1, r_ledger = L, r_raised = Some e\<rparr>
               | (Inr saved_attachments, e1) \<Rightarrow>
                   (case acquire world (h @ e1) data task_id of
                      (Inl e, e2) \<Rightarrow> \<lparr>r_events = e1 @ e2, r_ledger = L, r_raised = None\<rparr>
                    | (Inr rp, e2) \<Rightarrow>
                        (case fetch_prev_readme world (h @ e1 @ e2) rp round_num of
                           (prev_readme, e3) \<Rightarrow>
                             (case py_index data ''brief'' of
                                Inl e \<Rightarrow> \<lparr>r_events = e1 @ e2 @ e3, r_ledger = L, r_raised = Some e\<rparr>
                              | Inr brief \<Rightarrow>
                                  (case generate_app_code lib world (h @ e1 @ e2 @ e3) brief
                                          (attachments data) (checks data) round_num prev_readme of
                                     (Inl e, e4) \<Rightarrow>
                                       \<lparr>r_events = e1 @ e2 @ e3 @ e4, r_ledger = L, r_raised = Some e\<rparr>
                                   | (Inr gen, e4) \<Rightarrow>
                                       (let h4 = h @ e1 @ e2 @ e3 @ e4;
                                            e5 = stage_commit cfg lib world h4 rp round_num gen
                                        in (case stage_publish cfg world (h4 @ e5) round_num task_id of
                                              (pages_url, e6) \<Rightarrow>
                                                (case latest_commit world (h4 @ e5 @ e6) rp of
                                                   (commit_sha, e7) \<Rightarrow>
                                                     (let pre = e1 @ e2 @ e3 @ e4 @ e5 @ e6 @ e7
                                                      in (case build_payload data round_num rp commit_sha pages_url of
                                                            Inl e \<Rightarrow> \<lparr>r_events = pre, r_ledger = L, r_raised = Some e\<rparr>
                                                          | Inr payload \<Rightarrow>
                                                              (case dispatch world (h @ pre) L data payload of
                                                                 (e8, L') \<Rightarrow>
                                                                   \<lparr>r_events = pre @ e8, r_ledger = L',
                                                                    r_raised = None\<rparr>)))))))))))))"

section \<open>The intake handler (main.py, receive\_request)\<close>

text \<open>
  The handler's answer is the JSON object it returns, or the exception it raises; with
  it come the events of the call. The ledger is only read here. Scheduling the
  background task is the event \<open>EvSchedule\<close>; the task itself runs after the response.
\<close>

definition secret_value :: "config \<Rightarrow> jval" where
  "secret_value cfg = (case USER_SECRET cfg of None \<Rightarrow> JNull | Some s \<Rightarrow> JStr s)"

definition request_key :: "request \<Rightarrow> pyerr + string" where
  "request_key data =
     (case py_index data ''email'' of
        Inl e \<Rightarrow> Inl e
      | Inr email \<Rightarrow>
          (case py_index data ''task'' of
             Inl e \<Rightarrow> Inl e
           | Inr task \<Rightarrow>
               (case py_index data ''round'' of
                  Inl e \<Rightarrow> Inl e
                | Inr rnd \<Rightarrow>
                    (case py_index data ''nonce'' of
                       Inl e \<Rightarrow> Inl e
                     | Inr nonce \<Rightarrow> Inr (key_of email task rnd nonce)))))"

definition receive_request ::
  "config \<Rightarrow> env \<Rightarrow> event list \<Rightarrow> ledger_file \<Rightarrow> request
     \<Rightarrow> (pyerr + (string \<times> string) list) \<times> event list" where
  "receive_request cfg world h L data =
     (if \<not> py_eq (py_get data ''secret'') (secret_value cfg)
      then (Inr [(''error'', ''Invalid secret'')], [])
      else (let processed = load_processed L
            in (case request_key data of
                  Inl e \<Rightarrow> (Inl e, [EvLedgerRead])
                | Inr k \<Rightarrow>
                    (case map_of processed k of
                       Some prev \<Rightarrow>
                         (Inr [(''status'', ''ok''), (''note'', ''duplicate handled & re-notified'')],
                          [EvLedgerRead,
                           EvNotify (py_get data ''evaluation_url'') prev
                             (notify world (h @ [EvLedgerRead]) (py_get data ''evaluation_url'') prev
                                = None)])
                     | None \<Rightarrow>
                         (Inr [(''status'', ''accepted''),
                               (''note'', ''processing round '' @ py_str (py_get data ''round'')
                                          @ '' started'')],
                          [EvLedgerRead, EvSchedule data])))))"

section \<open>Sample inputs\<close>

text \<open>
  A configuration, a world in which every collaborator answers well except the
  generator (which fails, so the fallback is used), and the request of the
  specification's first scenario. They are the concrete inputs of the examples below.
\<close>

definition repo0 :: repo where
  "repo0 = \<lparr>full_name = ''user/demo1'', html_url = ''https://github.com/user/demo1''\<rparr>"

definition env0 :: env where
  "env0 = \<lparr>fs_write = (\<lambda>h p d. True),
           fs_read = (\<lambda>h p. Inr []),
           read_preview = (\<lambda>h p. Inr []),
           gh_get_repo = (\<lambda>h n. Inr repo0),
           gh_create_repo = (\<lambda>h n d. Inr repo0),
           gh_get_contents = (\<lambda>h r p. Inl (GithubException 404)),
           gh_update_file = (\<lambda>h r p m c sh. None),
           gh_create_file = (\<lambda>h r p m c. None),
           gh_get_commits = (\<lambda>h r. Inr ''abc123''),
           pages_post = (\<lambda>h u. Inr 201),
           gen_post = (\<lambda>h p. GenRaises),
           notify = (\<lambda>h u p. None)\<rparr>"

definition lib0 :: pylib where
  "lib0 = \<lparr>b64decode = Some, b64encode = id,
           tmp_path = (\<lambda>n. ''/tmp/llm_attachments/'' @ n),
           utf8_decode = id, utc_year = 2025\<rparr>"

definition cfg0 :: config where
  "cfg0 = \<lparr>USER_SECRET = Some ''s3cret'', USERNAME = Some ''user''\<rparr>"

definition req0 :: request where
  "req0 = \<lparr>members = [(''secret'', JStr ''s3cret''), (''email'', JStr ''a@b.c''),
                       (''task'', JStr ''demo1''), (''round'', JInt 1),
                       (''nonce'', JStr ''abc''), (''brief'', JStr ''a todo app''),
                       (''evaluation_url'', JStr ''https://example.org/notify'')],
           attachments = None, checks = Some [JStr ''has add button'']\<rparr>"

definition outcome0 :: outcome where
  "outcome0 = \<lparr>o_email = JStr ''a@b.c'', o_task = JStr ''demo1'', o_round = JInt 1,
               o_nonce = JStr ''abc'', o_repo_url = ''https://github.com/user/demo1'',
               o_commit_sha = Some ''abc123'',
               o_pages_url = Some ''https://user.github.io/demo1/''\<rparr>"

text \<open>The same request without its brief, without its email, and without its secret.\<close>

definition req_no_brief :: request where
  "req_no_brief = req0\<lparr>members := [(''secret'', JStr ''s3cret''), (''email'', JStr ''a@b.c''),
                                    (''task'', JStr ''demo1''), (''round'', JInt 1),
                                    (''nonce'', JStr ''abc'')]\<rparr>"

definition req_no_email :: request where
  "req_no_email = req0\<lparr>members := [(''secret'', JStr ''s3cret''), (''task'', JStr ''demo1''),
                                    (''round'', JInt 1), (''nonce'', JStr ''abc''),
                                    (''brief'', JStr ''a todo app'')]\<rparr>"

definition req_no_secret :: request where
  "req_no_secret = req0\<lparr>members := [(''email'', JStr ''a@b.c''), (''task'', JStr ''demo1''),
                                     (''round'', JInt 1), (''nonce'', JStr ''abc''),
                                     (''brief'', JStr ''a todo app'')]\<rparr>"

section \<open>Kinds of events and of attachment entries\<close>

text \<open>
  The events that change the repository's files, the one that asks for publication,
  the notifier call and the ledger write.
\<close>

fun is_commit :: "event \<Rightarrow> bool" where
  "is_commit (EvUpdateFile p m c) = True"
| "is_commit (EvCreateFile p m c) = True"
| "is_commit e = False"

fun is_pages :: "event \<Rightarrow> bool" where
  "is_pages (EvPagesPost u) = True"
| "is_pages e = False"

fun is_notify :: "event \<Rightarrow> bool" where
  "is_notify (EvNotify u p ok) = True"
| "is_notify e = False"

fun is_ledger_write :: "event \<Rightarrow> bool" where
  "is_ledger_write (EvLedgerWrite d) = True"
| "is_ledger_write e = False"

text \<open>
  The events of the stages before publication: local files, the repository host and
  the generator. None of them is a publish call, a notifier call, a ledger access or a
  scheduling.
\<close>

fun is_prep :: "event \<Rightarrow> bool" where
  "is_prep (EvPagesPost u) = False"
| "is_prep (EvNotify u p ok) = False"
| "is_prep EvLedgerRead = False"
| "is_prep (EvLedgerWrite d) = False"
| "is_prep (EvSchedule d) = False"
| "is_prep e = True"

text \<open>The events a run emits before it dispatches: those and the publish call.\<close>

definition is_stage :: "event \<Rightarrow> bool" where
  "is_stage e = (is_prep e \<or> is_pages e)"

text \<open>
  What the \<open>try\<close> block of the generator call leaves: an exception (so the fallback
  text is used) or a string. Any other value makes the split that follows raise.
\<close>

fun text_or_failure :: "pyerr + json \<Rightarrow> bool" where
  "text_or_failure (Inl e) = True"
| "text_or_failure (Inr (Scalar (JStr s))) = True"
| "text_or_failure (Inr v) = False"

text \<open>The events of attachment decoding and of repository acquisition.\<close>

fun is_acquisition :: "event \<Rightarrow> bool" where
  "is_acquisition (EvFsWrite p d) = True"
| "is_acquisition (EvGetRepo n) = True"
| "is_acquisition (EvCreateRepo n d) = True"
| "is_acquisition e = False"

text \<open>
  An object entry whose url is absent or is a string that does not start with
  \<open>data:\<close>; and an object entry whose url is a \<open>data:\<close> string with no comma or with a
  payload that base64 decoding rejects.
\<close>

definition not_data_url :: "attachment \<Rightarrow> bool" where
  "not_data_url att =
     (case att of
        AttOther v \<Rightarrow> False
      | AttObj m \<Rightarrow>
          (case map_of m ''url'' of
             None \<Rightarrow> True
           | Some (JStr u) \<Rightarrow> \<not> startswith u ''data:''
           | Some v \<Rightarrow> False))"

definition malformed_data_url :: "pylib \<Rightarrow> attachment \<Rightarrow> bool" where
  "malformed_data_url lib att =
     (case att of
        AttOther v \<Rightarrow> False
      | AttObj m \<Rightarrow>
          (case map_of m ''url'' of
             Some (JStr u) \<Rightarrow>
               startswith u ''data:''
               \<and> (case split_once '','' u of
                     None \<Rightarrow> True
                   | Some (header, b) \<Rightarrow> b64decode lib b = None)
           | _ \<Rightarrow> False))"

text \<open>
  Attachment entries: a well-formed data URI, a link that is not a data URI, an entry
  without url, and a data URI without comma.
\<close>

definition att_ok :: attachment where
  "att_ok = AttObj [(''name'', JStr ''a.txt''), (''url'', JStr ''data:text/plain;base64,aGk='')]"

definition att_http :: attachment where
  "att_http = AttObj [(''name'', JStr ''b.png''), (''url'', JStr ''https://example.org/b.png'')]"

definition att_nourl :: attachment where
  "att_nourl = AttObj [(''name'', JStr ''c.bin'')]"

definition att_nocomma :: attachment where
  "att_nocomma = AttObj [(''name'', JStr ''d.txt''), (''url'', JStr ''data:text/plain;base64'')]"

text \<open>An entry whose url is present and null, as in \<^verbatim>\<open>{"name": "e.txt", "url": null}\<close>.\<close>

definition att_nullurl :: attachment where
  "att_nullurl = AttObj [(''name'', JStr ''e.txt''), (''url'', JNull)]"

text \<open>
  The payloads handed to the notifier in a trace, in order: the Round Outcomes that
  were dispatched.
\<close>

fun notified :: "event list \<Rightarrow> outcome list" where
  "notified [] = []"
| "notified (EvNotify u p ok # es) = p # notified es"
| "notified (e # es) = notified es"

text \<open>
  An attachment entry on which lines 19 to 21 do not raise: an object whose url is
  absent or a string. A value that is a string.
\<close>

definition att_readable :: "attachment \<Rightarrow> bool" where
  "att_readable att =
     (case att of
        AttOther v \<Rightarrow> False
      | AttObj m \<Rightarrow>
          (case map_of m ''url'' of
             None \<Rightarrow> True
           | Some (JStr u) \<Rightarrow> True
           | Some v \<Rightarrow> False))"

fun is_str :: "jval \<Rightarrow> bool" where
  "is_str (JStr s) = True"
| "is_str v = False"

text \<open>
  The address \<open>enable_pages\<close> posts to, and whether its call at trace \<open>h\<close> is answered
  with 201, 204 or 202.
\<close>

definition pages_api :: "config \<Rightarrow> jval \<Rightarrow> string" where
  "pages_api cfg task_id =
     ''https://api.github.com/repos/'' @ env_str (USERNAME cfg) @ ''/''
     @ py_str task_id @ ''/pages''"

definition activated :: "config \<Rightarrow> env \<Rightarrow> event list \<Rightarrow> jval \<Rightarrow> bool" where
  "activated cfg world h task_id =
     (case pages_post world h (pages_api cfg task_id) of
        Inr status \<Rightarrow> status \<in> {201, 204, 202}
      | Inl e \<Rightarrow> False)"

text \<open>
  More sample inputs: a world whose repository host answers 500 to the lookup; one
  whose publish activation is refused (403); the request of round 2 for the same task;
  and a generator whose answer holds the text \<^verbatim>\<open>---README.md---\<close> and nothing else.
\<close>

definition env_no_repo :: env where
  "env_no_repo = env0\<lparr>gh_get_repo := (\<lambda>h n. Inl (GithubException 500))\<rparr>"

definition env_no_pages :: env where
  "env_no_pages = env0\<lparr>pages_post := (\<lambda>h u. Inr 403)\<rparr>"

definition req_round2 :: request where
  "req_round2 = req0\<lparr>members := [(''secret'', JStr ''s3cret''), (''email'', JStr ''a@b.c''),
                                  (''task'', JStr ''demo1''), (''round'', JInt 2),
                                  (''nonce'', JStr ''def''), (''brief'', JStr ''add a filter''),
                                  (''evaluation_url'', JStr ''https://example.org/notify'')]\<rparr>"

definition resp_marker_only :: json where
  "resp_marker_only =
     JObj [(''output'',
            JArr [JObj [],
                  JObj [(''content'', JArr [JObj [(''text'', Scalar (JStr ''---README.md---''))]])]])]"

definition env_marker_only :: env where
  "env_marker_only = env0\<lparr>gen_post := (\<lambda>h p. GenJson resp_marker_only)\<rparr>"

section \<open>Identity keys\<close>

lemma split_at_colon:
  assumes "xs @ CHR '':'' # ys = xs' @ CHR '':'' # ys'"
    and "CHR '':'' \<notin> set xs" and "CHR '':'' \<notin> set xs'"
  shows "xs = xs' \<and> ys = ys'"
  using assms
proof (induction xs arbitrary: xs')
  case Nil
  then show ?case by (cases xs') auto
next
  case (Cons x xs)
  then show ?case by (cases xs') auto
qed

lemma str_nat_digit: "n < 10 \<Longrightarrow> str_nat n = [digit_char n]"
  by (subst str_nat.simps) simp

text \<open>
  C5, as stated: distinct identity tuples never share a key. This fails: the fields are
  joined as they are, so a delimiter inside the email moves the boundary between email
  and task. The tuples (\<open>a::b\<close>, \<open>c\<close>, 1, x) and (\<open>a\<close>, \<open>b::c\<close>, 1, x) have one key.
\<close>

theorem C5_key_collision:
  "\<not> (\<forall>e t r n e' t' r' n'.
        (e, t, r, n) \<noteq> (e', t', r', n') \<longrightarrow> key_of e t r n \<noteq> key_of e' t' r' n')"
proof
  assume a: "\<forall>e t r n e' t' r' n'.
    (e, t, r, n) \<noteq> (e', t', r', n') \<longrightarrow> key_of e t r n \<noteq> key_of e' t' r' n'"
  have "key_of (JStr ''a::b'') (JStr ''c'') (JInt 1) (JStr ''x'')
          \<noteq> key_of (JStr ''a'') (JStr ''b::c'') (JInt 1) (JStr ''x'')"
    using a by blast
  then show False by (simp add: key_of_def)
qed

text \<open>
  C5, amended: the key is injective on the rendered fields of tuples whose rendered
  email, task and round hold no colon. Two such tuples with one key have the same
  rendered email, task, round and nonce.
\<close>

theorem C5_key_injective_without_colon:
  assumes "CHR '':'' \<notin> set (py_str e)" "CHR '':'' \<notin> set (py_str t)"
    and "CHR '':'' \<notin> set (py_str r)"
    and "CHR '':'' \<notin> set (py_str e')" "CHR '':'' \<notin> set (py_str t')"
    and "CHR '':'' \<notin> set (py_str r')"
    and "key_of e t r n = key_of e' t' r' n'"
  shows "py_str e = py_str e' \<and> py_str t = py_str t' \<and> py_str r = py_str r'
         \<and> py_str n = py_str n'"
proof -
  from assms(7) have k:
    "py_str e @ CHR '':'' # (CHR '':'' # py_str t @ ''::round'' @ py_str r @ ''::nonce'' @ py_str n)
     = py_str e' @ CHR '':'' # (CHR '':'' # py_str t' @ ''::round'' @ py_str r' @ ''::nonce'' @ py_str n')"
    by (simp add: key_of_def)
  from split_at_colon[OF k assms(1) assms(4)] have e: "py_str e = py_str e'"
    and k2: "py_str t @ CHR '':'' # ('':round'' @ py_str r @ ''::nonce'' @ py_str n)
             = py_str t' @ CHR '':'' # ('':round'' @ py_str r' @ ''::nonce'' @ py_str n')"
    by simp_all
  from split_at_colon[OF k2 assms(2) assms(5)] have t: "py_str t = py_str t'"
    and k3: "py_str r @ CHR '':'' # ('':nonce'' @ py_str n)
             = py_str r' @ CHR '':'' # ('':nonce'' @ py_str n')"
    by simp_all
  from split_at_colon[OF k3 assms(3) assms(6)]
  have "py_str r = py_str r'" "py_str n = py_str n'" by simp_all
  with e t show ?thesis by simp
qed

theorem C5_key_injective_witness:
  "CHR '':'' \<notin> set (py_str (JStr ''a@b.c'')) \<and> CHR '':'' \<notin> set (py_str (JStr ''demo1''))
   \<and> CHR '':'' \<notin> set (py_str (JInt 1)) \<and> CHR '':'' \<notin> set (py_str (JStr ''1''))
   \<and> key_of (JStr ''a@b.c'') (JStr ''demo1'') (JInt 1) (JStr ''abc'')
       = key_of (JStr ''a@b.c'') (JStr ''demo1'') (JStr ''1'') (JStr ''abc'')
   \<and> py_str (JInt 1) = py_str (JStr ''1'')"
  using C5_key_injective_without_colon[of "JStr ''a@b.c''" "JStr ''demo1''" "JInt 1"
      "JStr ''a@b.c''" "JStr ''demo1''" "JStr ''1''" "JStr ''abc''" "JStr ''abc''"]
  by (simp add: key_of_def str_int_def str_nat_digit digit_char_def)

section \<open>The intake handler\<close>


text \<open>
  C7: a request whose secret differs from the configured one is answered with the
  payload \<open>{"error": "Invalid secret"}\<close> and nothing else happens: the trace of the call
  is empty, so the ledger is neither read nor written, no repository or notifier call is
  made and nothing is scheduled.
\<close>

theorem C7_invalid_secret:
  assumes "\<not> py_eq (py_get data ''secret'') (secret_value cfg)"
  shows "receive_request cfg world h L data = (Inr [(''error'', ''Invalid secret'')], [])"
  using assms by (simp add: receive_request_def)

theorem C7_invalid_secret_witness:
  "\<not> py_eq (py_get (req0\<lparr>members := [(''secret'', JStr ''wrong'')]\<rparr>) ''secret'')
        (secret_value cfg0)
   \<and> receive_request cfg0 env0 [] (Stored [(''a@b.c::demo1::round1::nonceabc'', outcome0)])
        (req0\<lparr>members := [(''secret'', JStr ''wrong'')]\<rparr>)
      = (Inr [(''error'', ''Invalid secret'')], [])"
  using C7_invalid_secret[of "req0\<lparr>members := [(''secret'', JStr ''wrong'')]\<rparr>" cfg0 env0 "[]"
      "Stored [(''a@b.c::demo1::round1::nonceabc'', outcome0)]"]
  by (simp add: py_get_def secret_value_def cfg0_def req0_def)



lemma request_key_missing:
  assumes "map_of (members data) ''email'' = None \<or> map_of (members data) ''task'' = None
      \<or> map_of (members data) ''round'' = None \<or> map_of (members data) ''nonce'' = None"
  shows "\<exists>k. request_key data = Inl (KeyError k) \<and> k \<in> {''email'', ''task'', ''round'', ''nonce''}"
  using assms by (auto simp: request_key_def py_index_def split: option.splits)

text \<open>
  C2, as stated: a request lacking a required field gets a validation rejection, is not
  scheduled, and the handler does not raise. This fails: the handler checks no field. A
  request lacking only its brief is accepted and scheduled, and one lacking its email
  makes the handler raise KeyError.
\<close>

theorem C2_missing_field_not_rejected:
  "map_of (members req_no_brief) ''brief'' = None
   \<and> receive_request cfg0 env0 [] NoFile req_no_brief
      = (Inr [(''status'', ''accepted''), (''note'', ''processing round 1 started'')],
         [EvLedgerRead, EvSchedule req_no_brief])
   \<and> map_of (members req_no_email) ''email'' = None
   \<and> receive_request cfg0 env0 [] NoFile req_no_email
      = (Inl (KeyError ''email''), [EvLedgerRead])"
  by (simp add: receive_request_def req_no_brief_def req_no_email_def req0_def cfg0_def
      py_get_def secret_value_def request_key_def py_index_def key_of_def str_int_def
      str_nat_digit digit_char_def)

text \<open>
  C2, amended: what the handler does with an incomplete request. Without a secret,
  and with a secret configured, the answer is the invalid-secret payload and nothing
  else happens. With a matching secret and no email, task, round or nonce, the handler
  raises KeyError after reading the ledger: no notifier call, nothing scheduled. With a
  matching secret, the four key fields and no brief, the request is treated like any
  other: when its key is new it is accepted and scheduled.
\<close>

theorem C2_incomplete_request:
  "(USER_SECRET cfg \<noteq> None \<and> map_of (members data) ''secret'' = None
      \<longrightarrow> receive_request cfg world h L data = (Inr [(''error'', ''Invalid secret'')], []))
   \<and> (py_eq (py_get data ''secret'') (secret_value cfg)
       \<and> (map_of (members data) ''email'' = None \<or> map_of (members data) ''task'' = None
          \<or> map_of (members data) ''round'' = None \<or> map_of (members data) ''nonce'' = None)
      \<longrightarrow> (\<exists>k. receive_request cfg world h L data = (Inl (KeyError k), [EvLedgerRead])
               \<and> k \<in> {''email'', ''task'', ''round'', ''nonce''}))
   \<and> (py_eq (py_get data ''secret'') (secret_value cfg) \<and> request_key data = Inr k
       \<and> map_of (load_processed L) k = None \<and> map_of (members data) ''brief'' = None
      \<longrightarrow> receive_request cfg world h L data
            = (Inr [(''status'', ''accepted''),
                    (''note'', ''processing round '' @ py_str (py_get data ''round'') @ '' started'')],
               [EvLedgerRead, EvSchedule data]))"
proof (intro conjI impI)
  assume "USER_SECRET cfg \<noteq> None \<and> map_of (members data) ''secret'' = None"
  then show "receive_request cfg world h L data = (Inr [(''error'', ''Invalid secret'')], [])"
    by (auto simp: receive_request_def py_get_def secret_value_def)
next
  assume a: "py_eq (py_get data ''secret'') (secret_value cfg)
       \<and> (map_of (members data) ''email'' = None \<or> map_of (members data) ''task'' = None
          \<or> map_of (members data) ''round'' = None \<or> map_of (members data) ''nonce'' = None)"
  then obtain k where "request_key data = Inl (KeyError k)"
    and "k \<in> {''email'', ''task'', ''round'', ''nonce''}"
    using request_key_missing by blast
  with a show "\<exists>k. receive_request cfg world h L data = (Inl (KeyError k), [EvLedgerRead])
               \<and> k \<in> {''email'', ''task'', ''round'', ''nonce''}"
    by (auto simp: receive_request_def)
next
  assume "py_eq (py_get data ''secret'') (secret_value cfg) \<and> request_key data = Inr k
       \<and> map_of (load_processed L) k = None \<and> map_of (members data) ''brief'' = None"
  then show "receive_request cfg world h L data
            = (Inr [(''status'', ''accepted''),
                    (''note'', ''processing round '' @ py_str (py_get data ''round'') @ '' started'')],
               [EvLedgerRead, EvSchedule data])"
    by (simp add: receive_request_def)
qed

theorem C2_incomplete_request_witness:
  "USER_SECRET cfg0 \<noteq> None \<and> map_of (members req_no_secret) ''secret'' = None
   \<and> receive_request cfg0 env0 [] NoFile req_no_secret = (Inr [(''error'', ''Invalid secret'')], [])
   \<and> py_eq (py_get req_no_email ''secret'') (secret_value cfg0)
   \<and> map_of (members req_no_email) ''email'' = None
   \<and> (\<exists>k. receive_request cfg0 env0 [] NoFile req_no_email = (Inl (KeyError k), [EvLedgerRead]))
   \<and> py_eq (py_get req_no_brief ''secret'') (secret_value cfg0)
   \<and> request_key req_no_brief = Inr ''a@b.c::demo1::round1::nonceabc''
   \<and> map_of (members req_no_brief) ''brief'' = None
   \<and> snd (receive_request cfg0 env0 [] NoFile req_no_brief) = [EvLedgerRead, EvSchedule req_no_brief]"
proof -
  have s1: "USER_SECRET cfg0 \<noteq> None \<and> map_of (members req_no_secret) ''secret'' = None"
    by (simp add: cfg0_def req_no_secret_def req0_def)
  have e1: "py_eq (py_get req_no_email ''secret'') (secret_value cfg0)"
    by (simp add: cfg0_def req_no_email_def req0_def py_get_def secret_value_def)
  have e2: "map_of (members req_no_email) ''email'' = None"
    by (simp add: req_no_email_def req0_def)
  have b1: "py_eq (py_get req_no_brief ''secret'') (secret_value cfg0)"
    by (simp add: cfg0_def req_no_brief_def req0_def py_get_def secret_value_def)
  have b2: "request_key req_no_brief = Inr ''a@b.c::demo1::round1::nonceabc''"
    by (simp add: request_key_def req_no_brief_def req0_def py_index_def key_of_def str_int_def
        str_nat_digit digit_char_def)
  have b3: "map_of (load_processed NoFile) ''a@b.c::demo1::round1::nonceabc'' = None" by simp
  have b4: "map_of (members req_no_brief) ''brief'' = None"
    by (simp add: req_no_brief_def req0_def)
  from C2_incomplete_request[of cfg0 req_no_secret env0 "[]" NoFile "''x''"] s1
  have r1: "receive_request cfg0 env0 [] NoFile req_no_secret
            = (Inr [(''error'', ''Invalid secret'')], [])" by blast
  from C2_incomplete_request[of cfg0 req_no_email env0 "[]" NoFile "''x''"] e1 e2
  have r2: "\<exists>k. receive_request cfg0 env0 [] NoFile req_no_email
               = (Inl (KeyError k), [EvLedgerRead])" by blast
  from C2_incomplete_request[of cfg0 req_no_brief env0 "[]" NoFile
      "''a@b.c::demo1::round1::nonceabc''"] b1 b2 b3 b4
  have r3: "snd (receive_request cfg0 env0 [] NoFile req_no_brief)
            = [EvLedgerRead, EvSchedule req_no_brief]" by simp
  from s1 r1 e1 e2 r2 b1 b2 b4 r3 show ?thesis by blast
qed

section \<open>Decoding attachments\<close>

lemma decode_one_skips:
  assumes "not_data_url a \<or> malformed_data_url lib a"
  shows "decode_one lib world h a = (Inr None, [])"
proof (cases a)
  case (AttOther v)
  with assms show ?thesis by (simp add: not_data_url_def malformed_data_url_def)
next
  case (AttObj m)
  show ?thesis
  proof (cases "map_of m ''url''")
    case None
    then show ?thesis by (simp add: AttObj decode_one_def startswith_def Let_def)
  next
    case (Some v)
    show ?thesis
    proof (cases "\<exists>u. v = JStr u")
      case False
      with assms AttObj Some show ?thesis
        by (cases v) (simp_all add: not_data_url_def malformed_data_url_def)
    next
      case True
      then obtain u where v: "v = JStr u" by blast
      show ?thesis
      proof (cases "startswith u ''data:''")
        case False
        then show ?thesis by (simp add: AttObj Some v decode_one_def Let_def)
      next
        case True
        with assms AttObj Some v
        have m: "case split_once '','' u of None \<Rightarrow> True | Some (header, b) \<Rightarrow> b64decode lib b = None"
          by (simp add: not_data_url_def malformed_data_url_def)
        show ?thesis
        proof (cases "split_once '','' u")
          case None
          with True show ?thesis by (simp add: AttObj Some v decode_one_def Let_def)
        next
          case (Some hb)
          obtain header b where hb: "hb = (header, b)" by (cases hb)
          from m Some hb have "b64decode lib b = None" by simp
          with True Some hb show ?thesis
            by (simp add: AttObj \<open>map_of m ''url'' = Some v\<close> v decode_one_def Let_def)
        qed
      qed
    qed
  qed
qed

lemma decode_loop_append:
  "decode_loop lib world h (xs @ zs) =
     (case decode_loop lib world h xs of
        (Inl e, e1) \<Rightarrow> (Inl e, e1)
      | (Inr s1, e1) \<Rightarrow>
          (case decode_loop lib world (h @ e1) zs of
             (Inl e, e2) \<Rightarrow> (Inl e, e1 @ e2)
           | (Inr s2, e2) \<Rightarrow> (Inr (s1 @ s2), e1 @ e2)))"
proof (induction xs arbitrary: h)
  case Nil
  then show ?case by (simp split: prod.splits sum.splits)
next
  case (Cons a xs)
  then show ?case by (simp split: prod.splits sum.splits option.splits)
qed

lemma decode_loop_skip:
  assumes "decode_one lib world h a = (Inr None, [])"
  shows "decode_loop lib world h (a # ys) = decode_loop lib world h ys"
  using assms by (simp split: prod.splits sum.splits)

text \<open>
  An object entry whose url is absent or is a string not starting with \<open>data:\<close>, and
  one whose data URI has no comma or a payload the decoder rejects, yields no decoded
  entry and no event, and the list is processed as if the entry were not there.
\<close>

theorem entry_skipped:
  assumes "not_data_url a \<or> malformed_data_url lib a"
  shows "decode_one lib world h a = (Inr None, [])
         \<and> decode_attachments lib world h (Some (xs @ a # ys))
           = decode_attachments lib world h (Some (xs @ ys))"
proof -
  have s: "\<And>h. decode_one lib world h a = (Inr None, [])"
    using decode_one_skips[OF assms] .
  have "\<And>h. decode_loop lib world h (a # ys) = decode_loop lib world h ys"
    using decode_loop_skip[OF s] .
  then have "decode_loop lib world h (xs @ a # ys) = decode_loop lib world h (xs @ ys)"
    by (simp only: decode_loop_append)
  with s show ?thesis by (simp add: decode_attachments_def)
qed

theorem entry_skipped_witness:
  "not_data_url att_http \<and> not_data_url att_nourl \<and> malformed_data_url lib0 att_nocomma
   \<and> decode_attachments lib0 env0 [] (Some ([att_ok] @ att_http # [att_ok]))
     = decode_attachments lib0 env0 [] (Some ([att_ok] @ [att_ok]))
   \<and> decode_attachments lib0 env0 [] (Some ([] @ att_nourl # [att_ok]))
     = decode_attachments lib0 env0 [] (Some ([] @ [att_ok]))
   \<and> decode_attachments lib0 env0 [] (Some ([att_ok] @ att_nocomma # []))
     = decode_attachments lib0 env0 [] (Some ([att_ok] @ []))"
proof -
  have a: "not_data_url att_http"
    by (simp add: not_data_url_def att_http_def startswith_def)
  have b: "not_data_url att_nourl"
    by (simp add: not_data_url_def att_nourl_def)
  have c: "malformed_data_url lib0 att_nocomma"
    by (simp add: malformed_data_url_def att_nocomma_def startswith_def)
  from a b c
    entry_skipped[of att_http lib0 env0 "[]" "[att_ok]" "[att_ok]"]
    entry_skipped[of att_nourl lib0 env0 "[]" "[]" "[att_ok]"]
    entry_skipped[of att_nocomma lib0 env0 "[]" "[att_ok]" "[]"]
  show ?thesis by blast
qed

lemma decode_one_string_url:
  assumes "map_of m ''url'' = Some (JStr u)"
  shows "\<exists>s ev. decode_one lib world h (AttObj m) = (Inr s, ev)"
  using assms
  by (simp add: decode_one_def Let_def split: option.splits prod.splits jval.splits)

lemma decode_one_null_url:
  assumes "map_of m ''url'' = Some JNull"
  shows "decode_one lib world h (AttObj m) = (Inl AttributeError, [])"
  using assms by (simp add: decode_one_def Let_def)

text \<open>
  C10 at the entry \<^verbatim>\<open>{"name": "e.txt", "url": null}\<close>: the url is present and does not
  start with \<open>data:\<close>, yet the entry is not skipped. \<open>url.startswith\<close> raises
  AttributeError outside the \<open>try\<close>, and the whole list is lost: with the entry between
  two good ones the call raises, without it the call returns.
\<close>

theorem C10_null_url_aborts:
  "decode_one lib0 env0 [] att_nullurl = (Inl AttributeError, [])
   \<and> fst (decode_attachments lib0 env0 [] (Some [att_ok, att_nullurl, att_ok]))
       = Inl AttributeError
   \<and> fst (decode_attachments lib0 env0 [] (Some [att_ok, att_ok])) \<noteq> Inl AttributeError"
proof -
  have n: "\<And>h. decode_one lib0 env0 h att_nullurl = (Inl AttributeError, [])"
    by (simp add: att_nullurl_def decode_one_null_url)
  have k: "\<And>h. \<exists>s ev. decode_one lib0 env0 h att_ok = (Inr s, ev)"
    by (simp add: att_ok_def decode_one_string_url)
  obtain s1 e1 where a: "decode_one lib0 env0 [] att_ok = (Inr s1, e1)"
    using k[of "[]"] by blast
  obtain s2 e2 where b: "decode_one lib0 env0 ([] @ e1) att_ok = (Inr s2, e2)"
    using k[of "[] @ e1"] by blast
  have "fst (decode_attachments lib0 env0 [] (Some [att_ok, att_nullurl, att_ok]))
          = Inl AttributeError"
    by (simp add: decode_attachments_def a n)
  moreover have "fst (decode_attachments lib0 env0 [] (Some [att_ok, att_ok]))
          \<noteq> Inl AttributeError"
    using b by (simp add: decode_attachments_def a)
  ultimately show ?thesis using n by simp
qed

section \<open>The events of each stage\<close>

lemma acq_prep: "is_acquisition e \<Longrightarrow> is_prep e"
  by (cases e) simp_all

lemma list_all_acq_prep: "list_all is_acquisition es \<Longrightarrow> list_all is_prep es"
  by (induction es) (auto simp: acq_prep)

lemma decode_one_events: "list_all is_acquisition (snd (decode_one lib world h a))"
  by (simp add: decode_one_def Let_def
      split: option.splits prod.splits attachment.splits jval.splits)

lemma decode_loop_events: "list_all is_acquisition (snd (decode_loop lib world h xs))"
proof (induction xs arbitrary: h)
  case Nil
  then show ?case by simp
next
  case (Cons a xs)
  obtain en ev where d: "decode_one lib world h a = (en, ev)"
    by (cases "decode_one lib world h a")
  obtain ot evs where l: "decode_loop lib world (h @ ev) xs = (ot, evs)"
    by (cases "decode_loop lib world (h @ ev) xs")
  have "list_all is_acquisition ev" using decode_one_events[of lib world h a] d by simp
  moreover have "list_all is_acquisition evs" using Cons[of "h @ ev"] l by simp
  ultimately show ?case by (simp add: d l split: sum.splits)
qed

lemma decode_attachments_events:
  "list_all is_acquisition (snd (decode_attachments lib world h atts))"
  by (simp add: decode_attachments_def decode_loop_events)

lemma create_repo_events: "list_all is_acquisition (snd (create_repo world h n d))"
  by (simp add: create_repo_def split: sum.splits pyerr.splits)

lemma acquire_events: "list_all is_acquisition (snd (acquire world h data t))"
  by (simp add: acquire_def create_repo_events split: sum.splits)

lemma summarize_one_events: "list_all is_prep (snd (summarize_one world h s))"
  by (simp add: summarize_one_def Let_def split: sum.splits)

lemma summarize_loop_events: "list_all is_prep (snd (summarize_loop world h ss))"
proof (induction ss arbitrary: h)
  case Nil
  then show ?case by simp
next
  case (Cons s ss)
  obtain ln ev where d: "summarize_one world h s = (ln, ev)" by (cases "summarize_one world h s")
  obtain ot evs where l: "summarize_loop world (h @ ev) ss = (ot, evs)" by (cases "summarize_loop world (h @ ev) ss")
  have "list_all is_prep ev" using summarize_one_events[of world h s] d by simp
  moreover have "list_all is_prep evs" using Cons[of "h @ ev"] l by simp
  ultimately show ?case by (simp add: d l)
qed

lemma summarize_events: "list_all is_prep (snd (summarize_attachment_meta world h ss))"
  using summarize_loop_events[of world h ss]
  by (cases "summarize_loop world h ss") (simp add: summarize_attachment_meta_def)

lemma generate_events:
  "list_all is_prep (snd (generate_app_code lib world h b a c r p))"
proof -
  obtain dr e1 where d: "decode_attachments lib world h a = (dr, e1)"
    by (cases "decode_attachments lib world h a")
  have p1: "list_all is_prep e1"
    using decode_attachments_events[of lib world h a] d by (simp add: list_all_acq_prep)
  show ?thesis
  proof (cases dr)
    case (Inl e)
    with d p1 show ?thesis by (simp add: generate_app_code_def)
  next
    case (Inr sv)
    obtain m e2 where s: "summarize_attachment_meta world (h @ e1) sv = (m, e2)"
      by (cases "summarize_attachment_meta world (h @ e1) sv")
    have "list_all is_prep e2" using summarize_events[of world "h @ e1" sv] s by simp
    with p1 Inr d s show ?thesis
      by (simp add: generate_app_code_def Let_def split: sum.splits prod.splits)
  qed
qed

lemma on_github_error_events:
  "list_all is_prep evs \<Longrightarrow> list_all is_prep (snd (on_github_error world h rp p m c e evs))"
  by (simp add: on_github_error_def split: pyerr.splits)

lemma cuf_events: "list_all is_prep (snd (create_or_update_file world h rp p c m))"
  by (simp add: create_or_update_file_def on_github_error_events split: sum.splits option.splits)

lemma on_backup_error_events:
  "list_all is_prep evs \<Longrightarrow> list_all is_prep (snd (on_backup_error world h rp p m c e evs))"
  by (simp add: on_backup_error_def split: pyerr.splits)

lemma backup_sidecar_events: "list_all is_prep (snd (backup_sidecar world h rp p c m))"
  by (simp add: backup_sidecar_def on_backup_error_events split: sum.splits option.splits)

lemma cubf_events: "list_all is_prep (snd (create_or_update_binary_file lib world h rp p c m))"
proof -
  obtain r e1 where a: "create_or_update_file world h rp p c m = (r, e1)"
    by (cases "create_or_update_file world h rp p c m")
  have e1: "list_all is_prep e1" using cuf_events[of world h rp p c m] a by simp
  show ?thesis
  proof (cases r)
    case None
    obtain r2 e2 where b: "backup_sidecar world (h @ e1) rp
        (''attachments/'' @ basename p @ ''.b64'') (b64encode lib c) (''Backup '' @ p) = (r2, e2)"
      by (cases "backup_sidecar world (h @ e1) rp
        (''attachments/'' @ basename p @ ''.b64'') (b64encode lib c) (''Backup '' @ p)")
    have "list_all is_prep e2"
      using backup_sidecar_events[of world "h @ e1" rp "''attachments/'' @ basename p @ ''.b64''"
          "b64encode lib c" "''Backup '' @ p"] b by simp
    with e1 None a b show ?thesis by (simp add: create_or_update_binary_file_def Let_def)
  next
    case (Some e)
    with e1 a show ?thesis by (simp add: create_or_update_binary_file_def)
  qed
qed

lemma commit_attachment_events: "list_all is_prep (commit_attachment lib world h rp att)"
proof (cases "fs_read world h (s_path att)")
  case (Inl e)
  then show ?thesis by (simp add: commit_attachment_def Let_def)
next
  case (Inr bytes)
  show ?thesis
  proof (cases "text_like (s_mime att) (s_name att) [''.md'', ''.csv'', ''.json'', ''.txt'']")
    case True
    with Inr show ?thesis by (simp add: commit_attachment_def Let_def cuf_events)
  next
    case False
    obtain r e1 where b: "create_or_update_binary_file lib world (h @ [EvFsRead (s_path att)]) rp
        (''attachments/'' @ s_name att) bytes (''Add binary '' @ s_name att) = (r, e1)"
      by (cases "create_or_update_binary_file lib world (h @ [EvFsRead (s_path att)]) rp
        (''attachments/'' @ s_name att) bytes (''Add binary '' @ s_name att)")
    have e1: "list_all is_prep e1"
      using cubf_events[of lib world "h @ [EvFsRead (s_path att)]" rp "''attachments/'' @ s_name att"
          bytes "''Add binary '' @ s_name att"] b by simp
    from Inr False b e1 show ?thesis
      by (cases r) (simp_all add: commit_attachment_def Let_def cuf_events)
  qed
qed

lemma commit_attachments_events: "list_all is_prep (commit_attachments lib world h rp atts)"
  by (induction atts arbitrary: h) (simp_all add: Let_def commit_attachment_events)

lemma commit_files_events: "list_all is_prep (commit_files world h rp r fs)"
proof (induction fs arbitrary: h)
  case Nil
  then show ?case by simp
next
  case (Cons f fs)
  then show ?case by (cases f) (simp add: Let_def cuf_events)
qed

lemma stage_commit_events: "list_all is_prep (stage_commit cfg lib world h rp r gen)"
  by (simp add: stage_commit_def Let_def commit_license_def commit_attachments_events
      commit_files_events cuf_events)

lemma fetch_prev_events: "list_all is_prep (snd (fetch_prev_readme world h rp r))"
  by (simp add: fetch_prev_readme_def split: sum.splits)

lemma latest_commit_events: "list_all is_prep (snd (latest_commit world h rp))"
  by (simp add: latest_commit_def split: sum.splits)

lemma stage_publish_events:
  "list_all is_pages (snd (stage_publish cfg world h r t))
   \<and> (\<not> py_eq r (JInt 1) \<longrightarrow> snd (stage_publish cfg world h r t) = [])"
  by (simp add: stage_publish_def enable_pages_def Let_def split: sum.splits prod.splits)

section \<open>The shape of a run\<close>

lemma prep_stage: "list_all is_prep es \<Longrightarrow> list_all is_stage es"
  by (induction es) (auto simp: is_stage_def)

lemma pages_stage: "list_all is_pages es \<Longrightarrow> list_all is_stage es"
  by (induction es) (auto simp: is_stage_def)

lemma process_request_cases:
  fixes cfg lib world h L data
  defines "r \<equiv> process_request cfg lib world h L data"
    and "rn \<equiv> py_get_default data ''round'' (JInt 1)"
  shows "(list_all is_stage (r_events r) \<and> r_ledger r = L)
     \<or> (\<exists>pre pre1 e7 task_id rp sha hp p.
          py_index data ''task'' = Inr task_id
          \<and> pre = pre1 @ snd (stage_publish cfg world hp rn task_id) @ e7
          \<and> hp = h @ pre1 \<and> list_all is_prep pre1 \<and> list_all is_prep e7
          \<and> r_events r = pre @ [EvNotify (py_get data ''evaluation_url'') p
                                 (notify world (h @ pre) (py_get data ''evaluation_url'') p = None),
                               EvLedgerRead,
                               EvLedgerWrite (AList.update (key_of (o_email p) (o_task p) (o_round p) (o_nonce p)) p (load_processed L))]
          \<and> list_all is_stage pre
          \<and> (\<not> py_eq rn (JInt 1) \<longrightarrow> list_all is_prep pre)
          \<and> build_payload data rn rp sha (fst (stage_publish cfg world hp rn task_id)) = Inr p
          \<and> r_ledger r = Stored (AList.update (key_of (o_email p) (o_task p) (o_round p) (o_nonce p)) p (load_processed L))
          \<and> r_raised r = None)"
proof (cases "py_index data ''task''")
  case (Inl e)
  then show ?thesis by (simp add: r_def process_request_def)
next
  case task: (Inr task_id)
  obtain dr e1 where d0: "decode_attachments lib world h (attachments data) = (dr, e1)"
    by (cases "decode_attachments lib world h (attachments data)")
  have p1: "list_all is_prep e1"
    using decode_attachments_events[of lib world h "attachments data"] d0
    by (simp add: list_all_acq_prep)
  show ?thesis
  proof (cases dr)
    case (Inl e)
    with task d0 p1 show ?thesis by (simp add: r_def process_request_def prep_stage)
  next
  case dec: (Inr sv)
  with d0 have d: "decode_attachments lib world h (attachments data) = (Inr sv, e1)" by simp
  obtain ra e2 where a: "acquire world (h @ e1) data task_id = (ra, e2)"
    by (cases "acquire world (h @ e1) data task_id")
  have p2: "list_all is_prep e2"
    using acquire_events[of world "h @ e1" data task_id] a by (simp add: list_all_acq_prep)
  show ?thesis
  proof (cases ra)
    case (Inl e)
    with task d a p1 p2 show ?thesis by (simp add: r_def process_request_def prep_stage)
  next
    case rp: (Inr rp)
    obtain prev e3 where f: "fetch_prev_readme world (h @ e1 @ e2) rp rn = (prev, e3)"
      by (cases "fetch_prev_readme world (h @ e1 @ e2) rp rn")
    have p3: "list_all is_prep e3"
      using fetch_prev_events[of world "h @ e1 @ e2" rp rn] f by simp
    show ?thesis
    proof (cases "py_index data ''brief''")
      case (Inl e)
      with task d a rp f p1 p2 p3 show ?thesis
        by (simp add: r_def rn_def process_request_def prep_stage)
    next
      case brief: (Inr brief)
      obtain g e4 where gen: "generate_app_code lib world (h @ e1 @ e2 @ e3) brief (attachments data) (checks data) rn prev = (g, e4)"
        by (cases "generate_app_code lib world (h @ e1 @ e2 @ e3) brief (attachments data) (checks data) rn prev")
      have p4: "list_all is_prep e4"
        using generate_events[of lib world "h @ e1 @ e2 @ e3" brief "attachments data" "checks data" rn prev] gen by simp
      show ?thesis
      proof (cases g)
        case (Inl e)
        with task d a rp f brief gen p1 p2 p3 p4 show ?thesis
          by (simp add: r_def rn_def process_request_def prep_stage)
      next
        case g: (Inr res)
        define e5 where "e5 = stage_commit cfg lib world (h @ e1 @ e2 @ e3 @ e4) rp rn res"
        have p5: "list_all is_prep e5" by (simp add: e5_def stage_commit_events)
        obtain purl e6 where pb: "stage_publish cfg world (h @ e1 @ e2 @ e3 @ e4 @ e5) rn task_id = (purl, e6)"
          by (cases "stage_publish cfg world (h @ e1 @ e2 @ e3 @ e4 @ e5) rn task_id")
        have p6: "list_all is_pages e6" "\<not> py_eq rn (JInt 1) \<longrightarrow> e6 = []"
          using stage_publish_events[of cfg world "h @ e1 @ e2 @ e3 @ e4 @ e5" rn task_id] pb by simp_all
        obtain sha e7 where lc: "latest_commit world (h @ e1 @ e2 @ e3 @ e4 @ e5 @ e6) rp = (sha, e7)"
          by (cases "latest_commit world (h @ e1 @ e2 @ e3 @ e4 @ e5 @ e6) rp")
        have p7: "list_all is_prep e7"
          using latest_commit_events[of world "h @ e1 @ e2 @ e3 @ e4 @ e5 @ e6" rp] lc by simp
        have st: "list_all is_stage (e1 @ e2 @ e3 @ e4 @ e5 @ e6 @ e7)"
          using p1 p2 p3 p4 p5 p6(1) p7 by (simp add: prep_stage pages_stage)
        have pr: "\<not> py_eq rn (JInt 1) \<longrightarrow> list_all is_prep (e1 @ e2 @ e3 @ e4 @ e5 @ e6 @ e7)"
          using p1 p2 p3 p4 p5 p6(2) p7 by simp
        have pu: "purl = fst (stage_publish cfg world (h @ e1 @ e2 @ e3 @ e4 @ e5) rn task_id)"
          using pb by simp
        show ?thesis
        proof (cases "build_payload data rn rp sha purl")
          case (Inl e)
          with task d a rp f brief gen g pb lc st show ?thesis
            by (simp add: r_def rn_def process_request_def Let_def e5_def)
        next
          case pl: (Inr p)
          have ev: "r_events r = (e1 @ e2 @ e3 @ e4 @ e5 @ e6 @ e7) @ [EvNotify (py_get data ''evaluation_url'') p
                                 (notify world (h @ e1 @ e2 @ e3 @ e4 @ e5 @ e6 @ e7) (py_get data ''evaluation_url'') p = None),
                               EvLedgerRead,
                               EvLedgerWrite (AList.update (key_of (o_email p) (o_task p) (o_round p) (o_nonce p)) p (load_processed L))]"
            and ld: "r_ledger r = Stored (AList.update (key_of (o_email p) (o_task p) (o_round p) (o_nonce p)) p (load_processed L))"
            and rs: "r_raised r = None"
            using task d a rp f brief gen g pb lc pl
            by (simp_all add: r_def rn_def process_request_def Let_def e5_def dispatch_def save_processed_def)
          have dc: "e1 @ e2 @ e3 @ e4 @ e5 @ e6 @ e7
                      = (e1 @ e2 @ e3 @ e4 @ e5)
                        @ snd (stage_publish cfg world (h @ (e1 @ e2 @ e3 @ e4 @ e5)) rn task_id) @ e7"
            using pb by simp
          have p15: "list_all is_prep (e1 @ e2 @ e3 @ e4 @ e5)"
            using p1 p2 p3 p4 p5 by simp
          have pl': "build_payload data rn rp sha
                       (fst (stage_publish cfg world (h @ (e1 @ e2 @ e3 @ e4 @ e5)) rn task_id)) = Inr p"
            using pl pu by simp
          from ev ld rs st pr pl' task dc p15 p7 show ?thesis by blast
        qed
      qed
    qed
  qed
qed
qed

section \<open>Generation\<close>

lemma decode_one_readable:
  assumes "att_readable a"
  shows "\<exists>en ev. decode_one lib world h a = (Inr en, ev)"
proof (cases a)
  case (AttOther v)
  with assms show ?thesis by (simp add: att_readable_def)
next
  case (AttObj m)
  show ?thesis
  proof (cases "map_of m ''url''")
    case None
    then show ?thesis by (simp add: AttObj decode_one_def startswith_def Let_def)
  next
    case (Some v)
    with assms AttObj obtain u where "v = JStr u"
      by (cases v) (simp_all add: att_readable_def)
    with Some AttObj show ?thesis by (simp add: decode_one_string_url)
  qed
qed

lemma decode_loop_returns:
  "list_all att_readable xs \<Longrightarrow> \<exists>sv ev. decode_loop lib world h xs = (Inr sv, ev)"
proof (induction xs arbitrary: h)
  case Nil
  then show ?case by simp
next
  case (Cons a xs)
  from Cons.prems have a: "att_readable a" and xs: "list_all att_readable xs" by simp_all
  obtain en ev where d: "decode_one lib world h a = (Inr en, ev)"
    using decode_one_readable[OF a] by blast
  obtain sv evs where l: "decode_loop lib world (h @ ev) xs = (Inr sv, evs)"
    using Cons.IH[OF xs] by blast
  show ?case by (simp add: d l)
qed

lemma decode_attachments_returns:
  assumes "list_all att_readable (case atts of None \<Rightarrow> [] | Some xs \<Rightarrow> xs)"
  shows "\<exists>sv ev. decode_attachments lib world h atts = (Inr sv, ev)"
  using decode_loop_returns[OF assms] by (simp add: decode_attachments_def)

lemma str_items_strs: "list_all is_str vs \<Longrightarrow> \<exists>ss. str_items vs = Inr ss"
proof (induction vs)
  case Nil
  then show ?case by simp
next
  case (Cons v vs)
  from Cons.prems obtain s where v: "v = JStr s" by (cases v) simp_all
  from Cons obtain ss where "str_items vs = Inr ss" by auto
  with v show ?case by simp
qed

lemma readme_fallback_returns:
  assumes "list_all is_str (case chks of None \<Rightarrow> [] | Some cs \<Rightarrow> cs)"
  shows "\<exists>fb. generate_readme_fallback b chks m r = Inr fb \<and> fb \<noteq> []"
proof -
  obtain ss where "str_items (case chks of None \<Rightarrow> [] | Some cs \<Rightarrow> cs) = Inr ss"
    using str_items_strs[OF assms] by blast
  then show ?thesis by (simp add: generate_readme_fallback_def Let_def)
qed

lemma text_after_try_text:
  assumes "text_or_failure tried"
  shows "text_after_try tried brief (Inr fb)
         = Inr (Scalar (JStr (case tried of Inr (Scalar (JStr s)) \<Rightarrow> s
                              | _ \<Rightarrow> fallback_text brief fb)))"
proof (cases tried)
  case (Inl e)
  then show ?thesis by (simp add: text_after_try_def)
next
  case (Inr t)
  with assms obtain s where "t = Scalar (JStr s)"
  proof (cases t)
    case (Scalar v)
    with assms Inr that show ?thesis by (cases v) simp_all
  qed simp_all
  with Inr show ?thesis by (simp add: text_after_try_def)
qed

lemma split_parts_text:
  "split_parts (Scalar (JStr s)) (Inr fb)
   = Inr (case split_once marker s of
            Some (a, b) \<Rightarrow> (strip_code_block a, strip_code_block b)
          | None \<Rightarrow> (strip_code_block s, fb))"
  by (simp split: option.splits)

lemma generate_returns:
  assumes "list_all att_readable (case atts of None \<Rightarrow> [] | Some xs \<Rightarrow> xs)"
    and "list_all is_str (case chks of None \<Rightarrow> [] | Some cs \<Rightarrow> cs)"
    and "\<forall>h' q. text_or_failure (try_generate (gen_post world h' q))"
  shows "\<exists>code readme sv ev hg pg fb.
      generate_app_code lib world h brief atts chks rn prev
        = (Inr \<lparr>g_files = [(''index.html'', code), (''README.md'', readme)],
                g_attachments = sv\<rparr>, ev)
      \<and> fst (decode_attachments lib world h atts) = Inr sv
      \<and> generate_readme_fallback brief chks (p_meta pg) rn = Inr fb \<and> fb \<noteq> []
      \<and> (let answer = (case try_generate (gen_post world hg pg) of
                         Inr (Scalar (JStr s)) \<Rightarrow> s
                       | _ \<Rightarrow> fallback_text brief fb)
         in (code, readme)
            = (case split_once marker answer of
                 Some (a, b) \<Rightarrow> (strip_code_block a, strip_code_block b)
               | None \<Rightarrow> (strip_code_block answer, fb)))"
proof -
  obtain sv e1 where d: "decode_attachments lib world h atts = (Inr sv, e1)"
    using decode_attachments_returns[OF assms(1)] by blast
  obtain m e2 where s: "summarize_attachment_meta world (h @ e1) sv = (m, e2)"
    by (cases "summarize_attachment_meta world (h @ e1) sv")
  obtain fb where fb: "generate_readme_fallback brief chks m rn = Inr fb" and ne: "fb \<noteq> []"
    using readme_fallback_returns[OF assms(2)] by blast
  define prm where "prm = \<lparr>p_round = rn, p_brief = brief, p_context = context_note rn prev,
                          p_meta = m, p_checks = (case chks of None \<Rightarrow> [] | Some cs \<Rightarrow> cs)\<rparr>"
  define tried where "tried = try_generate (gen_post world (h @ e1 @ e2) prm)"
  define answer where "answer = (case tried of Inr (Scalar (JStr s)) \<Rightarrow> s
                                 | _ \<Rightarrow> fallback_text brief fb)"
  have tf: "text_or_failure tried" using assms(3) by (simp add: tried_def)
  have t: "text_after_try tried brief (Inr fb) = Inr (Scalar (JStr answer))"
    using text_after_try_text[OF tf] by (simp add: answer_def)
  obtain c r where cr: "(case split_once marker answer of
                           Some (a, b) \<Rightarrow> (strip_code_block a, strip_code_block b)
                         | None \<Rightarrow> (strip_code_block answer, fb)) = (c, r)"
    by (cases "case split_once marker answer of
                 Some (a, b) \<Rightarrow> (strip_code_block a, strip_code_block b)
               | None \<Rightarrow> (strip_code_block answer, fb)")
  have sp: "split_parts (Scalar (JStr answer)) (Inr fb) = Inr (c, r)"
    by (simp only: split_parts_text cr)
  have g: "generate_app_code lib world h brief atts chks rn prev
        = (Inr \<lparr>g_files = [(''index.html'', c), (''README.md'', r)], g_attachments = sv\<rparr>,
           e1 @ e2 @ [EvGenerate prm] @ [EvLocalWrite ''generated_app/index.html'' c,
                                        EvLocalWrite ''generated_app/README.md'' r])"
    using d s fb t sp
    by (simp add: generate_app_code_def Let_def prm_def tried_def del: split_parts.simps)
  have d': "fst (decode_attachments lib world h atts) = Inr sv" using d by simp
  have fb': "generate_readme_fallback brief chks (p_meta prm) rn = Inr fb"
    using fb by (simp add: prm_def)
  have eq: "(let answer = (case try_generate (gen_post world (h @ e1 @ e2) prm) of
                         Inr (Scalar (JStr s)) \<Rightarrow> s
                       | _ \<Rightarrow> fallback_text brief fb)
         in (c, r)
            = (case split_once marker answer of
                 Some (a, b) \<Rightarrow> (strip_code_block a, strip_code_block b)
               | None \<Rightarrow> (strip_code_block answer, fb)))"
    unfolding Let_def using cr[symmetric, unfolded answer_def tried_def] .
  from g d' fb' ne eq show ?thesis by blast
qed

section \<open>Runs of the pipeline\<close>

lemma stage_not_dispatch:
  "list_all is_stage es \<Longrightarrow> list_all (\<lambda>e. \<not> is_notify e \<and> \<not> is_ledger_write e) es"
proof (induction es)
  case Nil
  then show ?case by simp
next
  case (Cons e es)
  then show ?case by (cases e) (simp_all add: is_stage_def)
qed

lemma stage_no_notify: "list_all is_stage es \<Longrightarrow> \<not> list_ex is_notify es"
proof (induction es)
  case Nil
  then show ?case by simp
next
  case (Cons e es)
  then show ?case by (cases e) (simp_all add: is_stage_def)
qed

lemma prep_no_pages: "list_all is_prep es \<Longrightarrow> \<not> list_ex is_pages es"
proof (induction es)
  case Nil
  then show ?case by simp
next
  case (Cons e es)
  then show ?case by (cases e) simp_all
qed

lemma acq_harmless:
  "list_all is_acquisition es
   \<Longrightarrow> list_all (\<lambda>e. \<not> is_commit e \<and> \<not> is_pages e \<and> \<not> is_notify e \<and> \<not> is_ledger_write e) es"
proof (induction es)
  case Nil
  then show ?case by simp
next
  case (Cons e es)
  then show ?case by (cases e) simp_all
qed

lemma build_payload_fields:
  assumes "build_payload data rn rp sha pu = Inr p"
  shows "py_index data ''email'' = Inr (o_email p) \<and> py_index data ''task'' = Inr (o_task p)
    \<and> py_index data ''nonce'' = Inr (o_nonce p) \<and> o_round p = rn
    \<and> o_repo_url p = html_url rp \<and> o_commit_sha p = sha \<and> o_pages_url p = pu"
  using assms by (auto simp: build_payload_def split: sum.splits)

lemma notified_append: "notified (xs @ ys) = notified xs @ notified ys"
  by (induction xs rule: notified.induct) simp_all

lemma notified_prep: "list_all is_prep es \<Longrightarrow> notified es = []"
proof (induction es)
  case Nil
  then show ?case by simp
next
  case (Cons e es)
  then show ?case by (cases e) simp_all
qed

lemma stage_publish_eq:
  "stage_publish cfg world h rn t =
     (if py_eq rn (JInt 1)
      then ((if activated cfg world h t then Some (pages_url_of cfg t) else None),
            [EvPagesPost (pages_api cfg t)])
      else (Some (pages_url_of cfg t), []))"
  by (simp add: stage_publish_def enable_pages_def activated_def pages_api_def Let_def
      split: sum.splits)

lemma create_repo_returns:
  assumes "\<forall>h' nm. \<exists>rp. gh_get_repo world h' nm = Inr rp"
  shows "\<exists>rp ev. create_repo world h nm d = (Inr rp, ev)"
proof -
  from assms obtain rp where "gh_get_repo world h nm = Inr rp" by blast
  then show ?thesis by (simp add: create_repo_def)
qed

lemma dispatch_reached:
  assumes t: "py_index data ''task'' = Inr t"
    and em: "py_index data ''email'' = Inr em"
    and n: "py_index data ''nonce'' = Inr n"
    and b: "py_index data ''brief'' = Inr b"
    and dec: "list_all att_readable (case attachments data of None \<Rightarrow> [] | Some xs \<Rightarrow> xs)"
    and chk: "list_all is_str (case checks data of None \<Rightarrow> [] | Some cs \<Rightarrow> cs)"
    and gen: "\<forall>h' q. text_or_failure (try_generate (gen_post world h' q))"
    and acq: "\<forall>h' nm. \<exists>rp. gh_get_repo world h' nm = Inr rp"
  shows "list_ex is_notify (r_events (process_request cfg lib world h L data))"
proof -
  define rn where "rn = py_get_default data ''round'' (JInt 1)"
  obtain sv e1 where d: "decode_attachments lib world h (attachments data) = (Inr sv, e1)"
    using decode_attachments_returns[OF dec] by blast
  obtain rp e2 where a: "acquire world (h @ e1) data t = (Inr rp, e2)"
    using create_repo_returns[OF acq] b by (simp add: acquire_def) blast
  obtain prev e3 where f: "fetch_prev_readme world (h @ e1 @ e2) rp rn = (prev, e3)"
    by (cases "fetch_prev_readme world (h @ e1 @ e2) rp rn")
  obtain res e4 where g: "generate_app_code lib world (h @ e1 @ e2 @ e3) b (attachments data)
                            (checks data) rn prev = (Inr res, e4)"
    using generate_returns[OF dec chk gen] by blast
  define e5 where "e5 = stage_commit cfg lib world (h @ e1 @ e2 @ e3 @ e4) rp rn res"
  obtain purl e6 where pb: "stage_publish cfg world (h @ e1 @ e2 @ e3 @ e4 @ e5) rn t = (purl, e6)"
    by (cases "stage_publish cfg world (h @ e1 @ e2 @ e3 @ e4 @ e5) rn t")
  obtain sha e7 where lc: "latest_commit world (h @ e1 @ e2 @ e3 @ e4 @ e5 @ e6) rp = (sha, e7)"
    by (cases "latest_commit world (h @ e1 @ e2 @ e3 @ e4 @ e5 @ e6) rp")
  show ?thesis
    using t em n b d a f g pb lc
    by (simp add: process_request_def Let_def build_payload_def dispatch_def rn_def e5_def)
qed

lemma run0_dispatches:
  assumes "gh_get_repo world = (\<lambda>h n. Inr repo0)" and "gen_post world = (\<lambda>h p. GenRaises)"
  shows "list_ex is_notify (r_events (process_request cfg lib world h L req0))"
    and "list_ex is_notify (r_events (process_request cfg lib world h L req_round2))"
proof -
  have g: "\<forall>h' q. text_or_failure (try_generate (gen_post world h' q))"
    by (simp add: assms try_generate_def)
  have a: "\<forall>h' nm. \<exists>rp. gh_get_repo world h' nm = Inr rp"
    by (simp add: assms)
  show "list_ex is_notify (r_events (process_request cfg lib world h L req0))"
    by (rule dispatch_reached[OF _ _ _ _ _ _ g a])
       (simp_all add: py_index_def req0_def)
  show "list_ex is_notify (r_events (process_request cfg lib world h L req_round2))"
    by (rule dispatch_reached[OF _ _ _ _ _ _ g a])
       (simp_all add: py_index_def req0_def req_round2_def)
qed

text \<open>
  C3: when repository acquisition fails (the description cannot be formatted, or
  \<open>create_repo\<close> raises), the run ends there without an exception: its trace is that
  of attachment decoding and of the acquisition attempt, which holds no commit, no
  publish call, no notifier call and no ledger write, and the ledger file is as before.
\<close>

theorem C3_fatal:
  assumes "py_index data ''task'' = Inr t"
    and "decode_attachments lib world h (attachments data) = (Inr sv, e1)"
    and "acquire world (h @ e1) data t = (Inl e, e2)"
  shows "process_request cfg lib world h L data
           = \<lparr>r_events = e1 @ e2, r_ledger = L, r_raised = None\<rparr>
    \<and> list_all (\<lambda>e. \<not> is_commit e \<and> \<not> is_pages e \<and> \<not> is_notify e \<and> \<not> is_ledger_write e)
        (e1 @ e2)"
proof -
  have "list_all is_acquisition e1"
    using decode_attachments_events[of lib world h "attachments data"] assms(2) by simp
  moreover have "list_all is_acquisition e2"
    using acquire_events[of world "h @ e1" data t] assms(3) by simp
  ultimately have "list_all is_acquisition (e1 @ e2)" by simp
  then have "list_all (\<lambda>e. \<not> is_commit e \<and> \<not> is_pages e \<and> \<not> is_notify e \<and> \<not> is_ledger_write e)
               (e1 @ e2)"
    by (rule acq_harmless)
  with assms show ?thesis by (simp add: process_request_def)
qed

theorem C3_fatal_witness:
  "py_index req0 ''task'' = Inr (JStr ''demo1'')
   \<and> decode_attachments lib0 env_no_repo [] (attachments req0) = (Inr [], [])
   \<and> acquire env_no_repo ([] @ []) req0 (JStr ''demo1'')
       = (Inl (GithubException 500), [EvGetRepo (JStr ''demo1'')])
   \<and> process_request cfg0 lib0 env_no_repo [] (Stored [(''k'', outcome0)]) req0
       = \<lparr>r_events = [EvGetRepo (JStr ''demo1'')], r_ledger = Stored [(''k'', outcome0)],
          r_raised = None\<rparr>"
proof -
  have a: "py_index req0 ''task'' = Inr (JStr ''demo1'')"
    by (simp add: py_index_def req0_def)
  have b: "decode_attachments lib0 env_no_repo [] (attachments req0) = (Inr [], [])"
    by (simp add: decode_attachments_def req0_def)
  have c: "acquire env_no_repo ([] @ []) req0 (JStr ''demo1'')
             = (Inl (GithubException 500), [EvGetRepo (JStr ''demo1'')])"
    by (simp add: acquire_def py_index_def req0_def create_repo_def env_no_repo_def env0_def)
  from C3_fatal[OF a b c, of cfg0 "Stored [(''k'', outcome0)]"] a b c
  show ?thesis by simp
qed

text \<open>
  C8: a run that reaches dispatch (its trace holds a notifier call) ends with exactly
  these three events: the notifier call, the ledger read and the ledger write. Nothing
  before them is a notifier call or a ledger write, so the ledger is written once and
  only after the notifier was called. The write happens whether the notifier returned
  or raised (the flag of the call is not looked at), and it stores the notified outcome
  under the key of the request's email, task, round and nonce.
\<close>

theorem C8_ledger_after_notify:
  assumes "list_ex is_notify (r_events (process_request cfg lib world h L data))"
  shows "\<exists>pre p d.
      r_events (process_request cfg lib world h L data)
        = pre @ [EvNotify (py_get data ''evaluation_url'') p
                   (notify world (h @ pre) (py_get data ''evaluation_url'') p = None),
                 EvLedgerRead, EvLedgerWrite d]
      \<and> list_all (\<lambda>e. \<not> is_notify e \<and> \<not> is_ledger_write e) pre
      \<and> d = AList.update (key_of (o_email p) (o_task p) (o_round p) (o_nonce p)) p
              (load_processed L)
      \<and> r_ledger (process_request cfg lib world h L data) = Stored d
      \<and> py_index data ''email'' = Inr (o_email p) \<and> py_index data ''task'' = Inr (o_task p)
      \<and> py_index data ''nonce'' = Inr (o_nonce p)
      \<and> o_round p = py_get_default data ''round'' (JInt 1)"
proof -
  from process_request_cases[of cfg lib world h L data] assms stage_no_notify
  obtain pre task_id rp sha hp p where
    ev: "r_events (process_request cfg lib world h L data)
          = pre @ [EvNotify (py_get data ''evaluation_url'') p
                     (notify world (h @ pre) (py_get data ''evaluation_url'') p = None),
                   EvLedgerRead,
                   EvLedgerWrite (AList.update (key_of (o_email p) (o_task p) (o_round p) (o_nonce p)) p (load_processed L))]"
    and st: "list_all is_stage pre"
    and bp: "build_payload data (py_get_default data ''round'' (JInt 1)) rp sha
               (fst (stage_publish cfg world hp (py_get_default data ''round'' (JInt 1)) task_id)) = Inr p"
    and ld: "r_ledger (process_request cfg lib world h L data)
          = Stored (AList.update (key_of (o_email p) (o_task p) (o_round p) (o_nonce p)) p (load_processed L))"
    by blast
  from ev ld stage_not_dispatch[OF st] build_payload_fields[OF bp] show ?thesis by blast
qed

theorem C8_ledger_after_notify_witness:
  "list_ex is_notify (r_events (process_request cfg0 lib0 env0 [] NoFile req0))
   \<and> (\<exists>pre p. r_events (process_request cfg0 lib0 env0 [] NoFile req0)
               = pre @ [EvNotify (JStr ''https://example.org/notify'') p True, EvLedgerRead,
                        EvLedgerWrite [(''a@b.c::demo1::round1::nonceabc'', p)]]
             \<and> r_ledger (process_request cfg0 lib0 env0 [] NoFile req0)
               = Stored [(''a@b.c::demo1::round1::nonceabc'', p)])
   \<and> list_ex is_notify
       (r_events (process_request cfg0 lib0 (env0\<lparr>notify := (\<lambda>h u p. Some OtherError)\<rparr>) []
                    NoFile req0))
   \<and> (\<exists>pre p. r_events (process_request cfg0 lib0 (env0\<lparr>notify := (\<lambda>h u p. Some OtherError)\<rparr>)
                           [] NoFile req0)
               = pre @ [EvNotify (JStr ''https://example.org/notify'') p False, EvLedgerRead,
                        EvLedgerWrite [(''a@b.c::demo1::round1::nonceabc'', p)]]
             \<and> r_ledger (process_request cfg0 lib0 (env0\<lparr>notify := (\<lambda>h u p. Some OtherError)\<rparr>)
                           [] NoFile req0)
               = Stored [(''a@b.c::demo1::round1::nonceabc'', p)])"
proof -
  let ?bad = "env0\<lparr>notify := (\<lambda>h u p. Some OtherError)\<rparr>"
  have r0: "list_ex is_notify (r_events (process_request cfg0 lib0 env0 [] NoFile req0))"
    by (rule run0_dispatches(1)) (simp_all add: env0_def)
  have r1: "list_ex is_notify (r_events (process_request cfg0 lib0 ?bad [] NoFile req0))"
    by (rule run0_dispatches(1)) (simp_all add: env0_def)
  have k: "key_of (o_email p) (o_task p) (o_round p) (o_nonce p)
             = ''a@b.c::demo1::round1::nonceabc''"
    if "py_index req0 ''email'' = Inr (o_email p)" and "py_index req0 ''task'' = Inr (o_task p)"
      and "py_index req0 ''nonce'' = Inr (o_nonce p)"
      and "o_round p = py_get_default req0 ''round'' (JInt 1)" for p
  proof -
    from that have "o_email p = JStr ''a@b.c''" and "o_task p = JStr ''demo1''"
      and "o_nonce p = JStr ''abc''" and "o_round p = JInt 1"
      by (simp_all add: py_index_def py_get_default_def req0_def)
    then show ?thesis
      by (simp add: key_of_def str_int_def str_nat_digit digit_char_def)
  qed
  have u: "py_get req0 ''evaluation_url'' = JStr ''https://example.org/notify''"
    by (simp add: py_get_def req0_def)
  have good: "\<exists>pre p. r_events (process_request cfg0 lib0 env0 [] NoFile req0)
               = pre @ [EvNotify (JStr ''https://example.org/notify'') p True, EvLedgerRead,
                        EvLedgerWrite [(''a@b.c::demo1::round1::nonceabc'', p)]]
             \<and> r_ledger (process_request cfg0 lib0 env0 [] NoFile req0)
               = Stored [(''a@b.c::demo1::round1::nonceabc'', p)]"
  proof -
    from C8_ledger_after_notify[OF r0] obtain pre p d where
      ev: "r_events (process_request cfg0 lib0 env0 [] NoFile req0)
            = pre @ [EvNotify (py_get req0 ''evaluation_url'') p
                       (notify env0 ([] @ pre) (py_get req0 ''evaluation_url'') p = None),
                     EvLedgerRead, EvLedgerWrite d]"
      and d: "d = AList.update (key_of (o_email p) (o_task p) (o_round p) (o_nonce p)) p
                    (load_processed NoFile)"
      and l: "r_ledger (process_request cfg0 lib0 env0 [] NoFile req0) = Stored d"
      and f: "py_index req0 ''email'' = Inr (o_email p)" "py_index req0 ''task'' = Inr (o_task p)"
        "py_index req0 ''nonce'' = Inr (o_nonce p)"
        "o_round p = py_get_default req0 ''round'' (JInt 1)"
      by blast
    have dd: "d = [(''a@b.c::demo1::round1::nonceabc'', p)]"
      using d k[OF f] by simp
    have "notify env0 ([] @ pre) (py_get req0 ''evaluation_url'') p = None"
      by (simp add: env0_def)
    with ev l dd u show ?thesis by simp
  qed
  have bad: "\<exists>pre p. r_events (process_request cfg0 lib0 ?bad [] NoFile req0)
               = pre @ [EvNotify (JStr ''https://example.org/notify'') p False, EvLedgerRead,
                        EvLedgerWrite [(''a@b.c::demo1::round1::nonceabc'', p)]]
             \<and> r_ledger (process_request cfg0 lib0 ?bad [] NoFile req0)
               = Stored [(''a@b.c::demo1::round1::nonceabc'', p)]"
  proof -
    from C8_ledger_after_notify[OF r1] obtain pre p d where
      ev: "r_events (process_request cfg0 lib0 ?bad [] NoFile req0)
            = pre @ [EvNotify (py_get req0 ''evaluation_url'') p
                       (notify ?bad ([] @ pre) (py_get req0 ''evaluation_url'') p = None),
                     EvLedgerRead, EvLedgerWrite d]"
      and d: "d = AList.update (key_of (o_email p) (o_task p) (o_round p) (o_nonce p)) p
                    (load_processed NoFile)"
      and l: "r_ledger (process_request cfg0 lib0 ?bad [] NoFile req0) = Stored d"
      and f: "py_index req0 ''email'' = Inr (o_email p)" "py_index req0 ''task'' = Inr (o_task p)"
        "py_index req0 ''nonce'' = Inr (o_nonce p)"
        "o_round p = py_get_default req0 ''round'' (JInt 1)"
      by blast
    have dd: "d = [(''a@b.c::demo1::round1::nonceabc'', p)]"
      using d k[OF f] by simp
    have "notify ?bad ([] @ pre) (py_get req0 ''evaluation_url'') p \<noteq> None"
      by simp
    with ev l dd u show ?thesis by simp
  qed
  from r0 r1 good bad show ?thesis by simp
qed

section \<open>The publish address of a dispatched outcome\<close>

lemma dispatched_pages_url:
  assumes "list_ex is_notify (r_events (process_request cfg lib world h L data))"
  shows "\<exists>pre1 e7 t p ok d.
      py_index data ''task'' = Inr t
    \<and> list_all is_prep pre1 \<and> list_all is_prep e7
    \<and> notified (r_events (process_request cfg lib world h L data)) = [p]
    \<and> (if py_eq (py_get_default data ''round'' (JInt 1)) (JInt 1)
       then r_events (process_request cfg lib world h L data)
              = pre1 @ [EvPagesPost (pages_api cfg t)] @ e7
                @ [EvNotify (py_get data ''evaluation_url'') p ok, EvLedgerRead, EvLedgerWrite d]
            \<and> o_pages_url p
              = (if activated cfg world (h @ pre1) t then Some (pages_url_of cfg t) else None)
       else r_events (process_request cfg lib world h L data)
              = pre1 @ e7
                @ [EvNotify (py_get data ''evaluation_url'') p ok, EvLedgerRead, EvLedgerWrite d]
            \<and> o_pages_url p = Some (pages_url_of cfg t))"
proof -
  define rn where "rn = py_get_default data ''round'' (JInt 1)"
  define run where "run = process_request cfg lib world h L data"
  from process_request_cases[of cfg lib world h L data] assms stage_no_notify
  obtain pre pre1 e7 t rp sha hp p where
    t: "py_index data ''task'' = Inr t"
    and pre: "pre = pre1 @ snd (stage_publish cfg world hp rn t) @ e7"
    and hp: "hp = h @ pre1"
    and p1: "list_all is_prep pre1" and p7: "list_all is_prep e7"
    and ev: "r_events run
          = pre @ [EvNotify (py_get data ''evaluation_url'') p
                     (notify world (h @ pre) (py_get data ''evaluation_url'') p = None),
                   EvLedgerRead,
                   EvLedgerWrite (AList.update (key_of (o_email p) (o_task p) (o_round p) (o_nonce p)) p (load_processed L))]"
    and bp: "build_payload data rn rp sha (fst (stage_publish cfg world hp rn t)) = Inr p"
    unfolding rn_def run_def by blast
  have pu: "o_pages_url p = fst (stage_publish cfg world (h @ pre1) rn t)"
    using build_payload_fields[OF bp] hp by simp
  have nt: "notified (r_events run) = [p]"
    using p1 p7 by (simp add: ev pre stage_publish_eq notified_append notified_prep)
  define ok where "ok = (notify world (h @ pre) (py_get data ''evaluation_url'') p = None)"
  define d where "d = AList.update (key_of (o_email p) (o_task p) (o_round p) (o_nonce p)) p
                        (load_processed L)"
  have sh: "if py_eq rn (JInt 1)
       then r_events run
              = pre1 @ [EvPagesPost (pages_api cfg t)] @ e7
                @ [EvNotify (py_get data ''evaluation_url'') p ok, EvLedgerRead, EvLedgerWrite d]
            \<and> o_pages_url p
              = (if activated cfg world (h @ pre1) t then Some (pages_url_of cfg t) else None)
       else r_events run
              = pre1 @ e7
                @ [EvNotify (py_get data ''evaluation_url'') p ok, EvLedgerRead, EvLedgerWrite d]
            \<and> o_pages_url p = Some (pages_url_of cfg t)"
    using pu by (simp add: ev pre hp stage_publish_eq ok_def d_def)
  from t p1 p7 nt sh show ?thesis unfolding rn_def run_def by blast
qed

text \<open>
  C6, as the code has it. In a run that reaches dispatch one outcome is notified. On
  round 1 the trace holds exactly one activation request, and the outcome's pages\_url
  is the derived address when \<open>enable_pages\<close> was answered 201, 204 or 202 and null
  otherwise. On any other round the trace holds no activation request and pages\_url
  is the derived address, whatever round 1 gave: the ledger is not consulted.
\<close>

theorem C6_pages_url:
  assumes "list_ex is_notify (r_events (process_request cfg lib world h L data))"
  shows "\<exists>pre1 e7 t p ok d.
      py_index data ''task'' = Inr t
    \<and> list_all is_prep pre1 \<and> list_all is_prep e7
    \<and> notified (r_events (process_request cfg lib world h L data)) = [p]
    \<and> (if py_eq (py_get_default data ''round'' (JInt 1)) (JInt 1)
       then r_events (process_request cfg lib world h L data)
              = pre1 @ [EvPagesPost (pages_api cfg t)] @ e7
                @ [EvNotify (py_get data ''evaluation_url'') p ok, EvLedgerRead, EvLedgerWrite d]
            \<and> o_pages_url p
              = (if activated cfg world (h @ pre1) t then Some (pages_url_of cfg t) else None)
       else r_events (process_request cfg lib world h L data)
              = pre1 @ e7
                @ [EvNotify (py_get data ''evaluation_url'') p ok, EvLedgerRead, EvLedgerWrite d]
            \<and> o_pages_url p = Some (pages_url_of cfg t))"
  using assms by (rule dispatched_pages_url)

lemma round_of_samples:
  "py_eq (py_get_default req0 ''round'' (JInt 1)) (JInt 1)"
  "\<not> py_eq (py_get_default req_round2 ''round'' (JInt 1)) (JInt 1)"
  "py_index req0 ''task'' = Inr (JStr ''demo1'')"
  "py_index req_round2 ''task'' = Inr (JStr ''demo1'')"
  "pages_url_of cfg0 (JStr ''demo1'') = ''https://user.github.io/demo1/''"
  by (simp_all add: py_get_default_def py_index_def req0_def req_round2_def pages_url_of_def
      cfg0_def env_str_def)

theorem C6_pages_url_witness:
  "list_ex is_notify (r_events (process_request cfg0 lib0 env0 [] NoFile req0))
   \<and> map o_pages_url (notified (r_events (process_request cfg0 lib0 env0 [] NoFile req0)))
     = [Some ''https://user.github.io/demo1/'']
   \<and> list_ex is_pages (r_events (process_request cfg0 lib0 env0 [] NoFile req0))
   \<and> list_ex is_notify (r_events (process_request cfg0 lib0 env0 [] NoFile req_round2))
   \<and> map o_pages_url (notified (r_events (process_request cfg0 lib0 env0 [] NoFile req_round2)))
     = [Some ''https://user.github.io/demo1/'']
   \<and> \<not> list_ex is_pages (r_events (process_request cfg0 lib0 env0 [] NoFile req_round2))"
proof -
  have r1: "list_ex is_notify (r_events (process_request cfg0 lib0 env0 [] NoFile req0))"
    by (rule run0_dispatches(1)) (simp_all add: env0_def)
  have r2: "list_ex is_notify (r_events (process_request cfg0 lib0 env0 [] NoFile req_round2))"
    by (rule run0_dispatches(2)) (simp_all add: env0_def)
  have act: "\<And>hh. activated cfg0 env0 hh (JStr ''demo1'')"
    by (simp add: activated_def env0_def)
  have a: "map o_pages_url (notified (r_events (process_request cfg0 lib0 env0 [] NoFile req0)))
             = [Some ''https://user.github.io/demo1/'']
           \<and> list_ex is_pages (r_events (process_request cfg0 lib0 env0 [] NoFile req0))"
    using C6_pages_url[OF r1] act by (auto simp: round_of_samples)
  have b: "map o_pages_url
             (notified (r_events (process_request cfg0 lib0 env0 [] NoFile req_round2)))
             = [Some ''https://user.github.io/demo1/'']
           \<and> \<not> list_ex is_pages (r_events (process_request cfg0 lib0 env0 [] NoFile req_round2))"
    using C6_pages_url[OF r2] by (auto simp: round_of_samples dest: prep_no_pages)
  from r1 r2 a b show ?thesis by simp
qed

text \<open>
  Where the claim fails: the publish activation of round 1 is refused, so the round-1
  outcome has a null pages\_url; the round-2 run for the same task, started from the
  trace and the ledger that round 1 left, still reports the derived address.
\<close>

theorem C6_round2_ignores_round1:
  "map o_pages_url
     (notified (r_events (process_request cfg0 lib0 env_no_pages [] NoFile req0))) = [None]
   \<and> map o_pages_url
       (notified (r_events
          (process_request cfg0 lib0 env_no_pages
             (r_events (process_request cfg0 lib0 env_no_pages [] NoFile req0))
             (r_ledger (process_request cfg0 lib0 env_no_pages [] NoFile req0))
             req_round2)))
     = [Some ''https://user.github.io/demo1/'']"
proof -
  define h1 where "h1 = r_events (process_request cfg0 lib0 env_no_pages [] NoFile req0)"
  define L1 where "L1 = r_ledger (process_request cfg0 lib0 env_no_pages [] NoFile req0)"
  have r1: "list_ex is_notify (r_events (process_request cfg0 lib0 env_no_pages [] NoFile req0))"
    by (rule run0_dispatches(1)) (simp_all add: env_no_pages_def env0_def)
  have r2: "list_ex is_notify (r_events (process_request cfg0 lib0 env_no_pages h1 L1 req_round2))"
    by (rule run0_dispatches(2)) (simp_all add: env_no_pages_def env0_def)
  have act: "\<And>hh. \<not> activated cfg0 env_no_pages hh (JStr ''demo1'')"
    by (simp add: activated_def env_no_pages_def env0_def)
  have a: "map o_pages_url
             (notified (r_events (process_request cfg0 lib0 env_no_pages [] NoFile req0))) = [None]"
    using dispatched_pages_url[OF r1] act by (auto simp: round_of_samples)
  have b: "map o_pages_url
             (notified (r_events (process_request cfg0 lib0 env_no_pages h1 L1 req_round2)))
             = [Some ''https://user.github.io/demo1/'']"
    using dispatched_pages_url[OF r2] by (auto simp: round_of_samples)
  from a b show ?thesis unfolding h1_def L1_def by simp
qed

section \<open>The generated files\<close>

lemma marker_only_run:
  "generate_app_code lib0 env_marker_only [] (JStr ''a todo app'') None
     (Some [JStr ''has add button'']) (JInt 1) None
   = (Inr \<lparr>g_files = [(''index.html'', []), (''README.md'', [])], g_attachments = []\<rparr>,
      [EvGenerate \<lparr>p_round = JInt 1, p_brief = JStr ''a todo app'', p_context = [],
                   p_meta = [], p_checks = [JStr ''has add button'']\<rparr>,
       EvLocalWrite ''generated_app/index.html'' [],
       EvLocalWrite ''generated_app/README.md'' []])"
proof -
  have t: "try_generate (GenJson resp_marker_only) = Inr (Scalar (JStr marker))"
    by (simp add: try_generate_def extract_text_def first_text_def resp_marker_only_def
        marker_def contains_def Let_def)
  have s: "split_once marker marker = Some ([], [])"
    by (simp add: marker_def)
  have e: "strip_code_block [] = []"
    by (simp add: strip_code_block_def contains_def py_strip_def)
  show ?thesis
    by (simp add: generate_app_code_def decode_attachments_def summarize_attachment_meta_def
        env_marker_only_def env0_def context_note_def text_after_try_def t s e Let_def)
qed

text \<open>
  C9: whenever \<open>generate_app_code\<close> returns, the files of its result are \<open>index.html\<close>
  and \<open>README.md\<close>, in this order and nothing else.
\<close>

theorem C9_two_files:
  assumes "generate_app_code lib world h brief atts chks rn prev = (Inr res, ev)"
  shows "map fst (g_files res) = [''index.html'', ''README.md'']"
  using assms
  by (auto simp: generate_app_code_def Let_def split: prod.splits sum.splits)

theorem C9_two_files_witness:
  "generate_app_code lib0 env_marker_only [] (JStr ''a todo app'') None
     (Some [JStr ''has add button'']) (JInt 1) None
   = (Inr \<lparr>g_files = [(''index.html'', []), (''README.md'', [])], g_attachments = []\<rparr>,
      [EvGenerate \<lparr>p_round = JInt 1, p_brief = JStr ''a todo app'', p_context = [],
                   p_meta = [], p_checks = [JStr ''has add button'']\<rparr>,
       EvLocalWrite ''generated_app/index.html'' [],
       EvLocalWrite ''generated_app/README.md'' []])
   \<and> map fst (g_files \<lparr>g_files = [(''index.html'', []), (''README.md'', [])],
                        g_attachments = []\<rparr>)
     = [''index.html'', ''README.md'']"
  using C9_two_files[OF marker_only_run] marker_only_run by simp



section \<open>The fallback page\<close>

lemma split_once_eq:
  "split_once sep s = Some (a, b) \<Longrightarrow> s = a @ sep @ b"
proof (induction s arbitrary: a)
  case Nil
  then show ?case by simp
next
  case (Cons c cs)
  show ?case
  proof (cases "prefix sep (c # cs)")
    case True
    with Cons.prems have ab: "a = []" "b = drop (length sep) (c # cs)" by simp_all
    from True have "c # cs = sep @ drop (length sep) (c # cs)"
      unfolding prefix_def by (metis append_eq_conv_conj)
    with ab show ?thesis by simp
  next
    case False
    with Cons.prems obtain a' where s: "split_once sep cs = Some (a', b)" and a: "a = c # a'"
      by (auto split: option.splits)
    from Cons.IH[OF s] a show ?thesis by simp
  qed
qed

lemma split_once_first:
  assumes "sep \<noteq> []"
  shows "\<exists>a b. split_once sep (x @ sep @ y) = Some (a, b) \<and> prefix a x"
proof (induction x)
  case Nil
  from assms obtain c cs where "sep = c # cs" by (cases sep) auto
  then show ?case by simp
next
  case (Cons c x)
  then obtain a b where s: "split_once sep (x @ sep @ y) = Some (a, b)" and p: "prefix a x"
    by blast
  show ?case
  proof (cases "prefix sep (c # x @ sep @ y)")
    case True
    then show ?thesis by simp
  next
    case False
    with s p show ?thesis by simp
  qed
qed

lemma contains_needs:
  assumes "contains sep s" and "c \<in> set sep"
  shows "c \<in> set s"
proof -
  from assms(1) obtain a b where "split_once sep s = Some (a, b)"
    by (auto simp: contains_def)
  from split_once_eq[OF this] assms(2) show ?thesis by simp
qed

lemma py_strip_nonempty:
  assumes "c \<in> set s" and "\<not> is_space c"
  shows "py_strip s \<noteq> []"
proof -
  have d: "dropWhile is_space s \<noteq> []"
    using assms by (auto simp: dropWhile_eq_Nil_conv)
  then have "\<not> is_space (hd (dropWhile is_space s))"
    by (rule hd_dropWhile)
  moreover have "hd (dropWhile is_space s) \<in> set (rev (dropWhile is_space s))"
    using d by simp
  ultimately have "dropWhile is_space (rev (dropWhile is_space s)) \<noteq> []"
    by (auto simp: dropWhile_eq_Nil_conv)
  then show ?thesis by (simp add: py_strip_def)
qed

lemma strip_code_block_nonempty:
  assumes "CHR 0x60 \<notin> set s" and "c \<in> set s" and "\<not> is_space c"
  shows "strip_code_block s \<noteq> []"
proof -
  have "\<not> contains fence s"
    using contains_needs[of fence s "CHR 0x60"] assms(1) by (auto simp: fence_def)
  then show ?thesis
    using py_strip_nonempty[OF assms(2,3)] by (simp add: strip_code_block_def)
qed

lemma first_occurrence:
  assumes "u @ t # r = u' @ t # r'" and "t \<notin> set u" and "t \<notin> set u'"
  shows "u = u' \<and> r = r'"
  using assms
proof (induction u arbitrary: u')
  case Nil
  then show ?case by (cases u') auto
next
  case (Cons a u)
  then show ?case by (cases u') auto
qed

lemma no_fence_between:
  assumes w1: "t \<notin> set w1" and m: "t \<notin> set m" and w2: "t \<notin> set w2" and ne: "m \<noteq> []"
  shows "w1 @ t # m @ t # w2 \<noteq> a @ t # t # t # b"
proof
  assume eq: "w1 @ t # m @ t # w2 = a @ t # t # t # b"
  show False
  proof (cases "t \<in> set a")
    case False
    from first_occurrence[OF eq w1 False] have "m @ t # w2 = t # t # b" by simp
    with m ne show False by (cases m) auto
  next
    case True
    then obtain p q where a: "a = p @ t # q" and p: "t \<notin> set p"
      by (auto dest: split_list_first)
    from eq a have "w1 @ t # (m @ t # w2) = p @ t # (q @ t # t # t # b)" by simp
    from first_occurrence[OF this w1 p] have e2: "m @ t # w2 = q @ t # t # t # b" by simp
    show False
    proof (cases "t \<in> set q")
      case False
      from first_occurrence[OF e2 m False] have "w2 = t # t # b" by simp
      with w2 show False by simp
    next
      case True
      then obtain p2 q2 where q: "q = p2 @ t # q2" and p2: "t \<notin> set p2"
        by (auto dest: split_list_first)
      from e2 q have "m @ t # w2 = p2 @ t # (q2 @ t # t # t # b)" by simp
      from first_occurrence[OF this m p2] have "w2 = q2 @ t # t # t # b" by simp
      with w2 show False by simp
    qed
  qed
qed

lemma no_fence_two_ticks:
  assumes "CHR 0x60 \<notin> set w1" and "CHR 0x60 \<notin> set m" and "CHR 0x60 \<notin> set w2" and "m \<noteq> []"
  shows "\<not> contains fence (w1 @ CHR 0x60 # m @ CHR 0x60 # w2)"
proof
  assume "contains fence (w1 @ CHR 0x60 # m @ CHR 0x60 # w2)"
  then obtain a b where "split_once fence (w1 @ CHR 0x60 # m @ CHR 0x60 # w2) = Some (a, b)"
    by (auto simp: contains_def)
  from split_once_eq[OF this]
  have "w1 @ CHR 0x60 # m @ CHR 0x60 # w2 = a @ CHR 0x60 # CHR 0x60 # CHR 0x60 # b"
    by (simp add: fence_def)
  with no_fence_between[OF assms] show False by blast
qed

lemma py_join_free:
  assumes "\<forall>s\<in>set xs. t \<notin> set s" and "t \<notin> set sep"
  shows "t \<notin> set (py_join sep xs)"
  using assms by (induction sep xs rule: py_join.induct) auto

lemma str_items_free:
  assumes "list_all (\<lambda>c. is_str c \<and> t \<notin> set (py_str c)) vs"
  shows "\<exists>ss. str_items vs = Inr ss \<and> (\<forall>s\<in>set ss. t \<notin> set s)"
  using assms
proof (induction vs)
  case Nil
  then show ?case by simp
next
  case (Cons v vs)
  from Cons.prems obtain s where v: "v = JStr s" and s: "t \<notin> set s"
    by (cases v) simp_all
  from Cons obtain ss where "str_items vs = Inr ss" and "\<forall>s\<in>set ss. t \<notin> set s" by auto
  with v s show ?case by simp
qed

lemma readme_fallback_shape:
  assumes c: "list_all (\<lambda>c. is_str c \<and> CHR 0x60 \<notin> set (py_str c))
               (case chks of None \<Rightarrow> [] | Some cs \<Rightarrow> cs)"
    and b: "CHR 0x60 \<notin> set (py_str brief)" and r: "CHR 0x60 \<notin> set (py_str rn)"
  shows "\<exists>f1 f2. generate_readme_fallback brief chks m rn
                  = Inr (f1 @ CHR 0x60 # ''index.html'' @ CHR 0x60 # f2)
               \<and> CHR ''#'' \<in> set f1 \<and> CHR 0x60 \<notin> set f2
               \<and> (CHR 0x60 \<notin> set m \<longrightarrow> CHR 0x60 \<notin> set f1)"
proof -
  obtain ss where ss: "str_items (case chks of None \<Rightarrow> [] | Some cs \<Rightarrow> cs) = Inr ss"
    and fr: "\<forall>s\<in>set ss. CHR 0x60 \<notin> set s"
    using str_items_free[OF c] by blast
  have j: "CHR 0x60 \<notin> set (py_join backslash_n ss)"
    using fr by (rule py_join_free) (simp add: backslash_n_def)
  define f1 where "f1 = ''# Auto-generated README (Round '' @ py_str rn @ '')'' @ nl @ nl
                   @ ''**Project brief:** '' @ py_str brief @ nl @ nl
                   @ ''**Attachments:**'' @ nl @ m @ nl @ nl
                   @ ''**Checks to meet:**'' @ nl @ py_join backslash_n ss @ nl @ nl
                   @ ''## Setup'' @ nl
                   @ ''1. Open ''"
  define f2 where "f2 = '' in a browser.'' @ nl
                   @ ''2. No build steps required.'' @ nl @ nl
                   @ ''## Notes'' @ nl
                   @ ''This README was generated as a fallback (AI Pipe did not return an explicit README).''
                   @ nl"
  have "generate_readme_fallback brief chks m rn
          = Inr (f1 @ CHR 0x60 # ''index.html'' @ CHR 0x60 # f2)"
    by (simp add: generate_readme_fallback_def ss Let_def f1_def f2_def)
  moreover have "CHR ''#'' \<in> set f1" by (simp add: f1_def)
  moreover have "CHR 0x60 \<notin> set f2" by (simp add: f2_def nl_def)
  moreover have "CHR 0x60 \<notin> set m \<longrightarrow> CHR 0x60 \<notin> set f1"
    using b r j by (simp add: f1_def nl_def)
  ultimately show ?thesis by blast
qed

lemma fallback_split:
  assumes b: "CHR 0x60 \<notin> set (py_str brief)"
    and fb: "fb = f1 @ CHR 0x60 # ''index.html'' @ CHR 0x60 # f2"
    and h: "CHR ''#'' \<in> set f1" and t2: "CHR 0x60 \<notin> set f2"
  shows "\<exists>a b. split_once marker (fallback_text brief fb) = Some (a, b)
               \<and> strip_code_block a \<noteq> []
               \<and> (CHR 0x60 \<notin> set f1 \<longrightarrow> strip_code_block b \<noteq> [])"
proof -
  define x' where "x' = ''html>'' @ nl
     @ ''  <head><title>Fallback App</title></head>'' @ nl
     @ ''  <body>'' @ nl
     @ ''    <h1>Hello (fallback)</h1>'' @ nl
     @ ''    <p>This app was generated as a fallback because AI Pipe failed. Brief: ''
     @ py_str brief @ ''</p>'' @ nl
     @ ''  </body>'' @ nl
     @ ''</html>'' @ nl @ nl"
  define x where "x = CHR 0x0A # CHR ''<'' # x'"
  define y where "y = nl @ fb @ nl"
  have ft: "fallback_text brief fb = x @ marker @ y"
    by (simp add: fallback_text_def x_def x'_def y_def nl_def)
  have xt: "CHR 0x60 \<notin> set x"
    using b by (simp add: x_def x'_def nl_def)
  have mt: "CHR 0x60 \<notin> set marker" by (simp add: marker_def)
  have mne: "marker \<noteq> []" by (simp add: marker_def)
  obtain a b where sp: "split_once marker (x @ marker @ y) = Some (a, b)" and pa: "prefix a x"
    using split_once_first[OF mne] by blast
  from pa obtain z where xz: "x = a @ z" by (auto simp: prefix_def)
  have eq: "x @ marker @ y = a @ marker @ b" using split_once_eq[OF sp] .
  with xz have zy: "z @ marker @ y = marker @ b" by simp
  have at: "CHR 0x60 \<notin> set a" using xt xz by simp
  have lt: "CHR ''<'' \<in> set a"
  proof (cases a)
    case Nil
    with xz have "z = x" by simp
    with zy have "x @ marker @ y = marker @ b" by simp
    then show ?thesis by (simp add: x_def marker_def)
  next
    case (Cons c1 a1)
    show ?thesis
    proof (cases a1)
      case Nil
      with Cons xz have "CHR ''<'' # x' = z" by (simp add: x_def)
      with zy have "(CHR ''<'' # x') @ marker @ y = marker @ b" by simp
      then show ?thesis by (simp add: marker_def)
    next
      case (Cons c2 a2)
      with \<open>a = c1 # a1\<close> xz have "CHR ''<'' = c2" by (simp add: x_def)
      with Cons \<open>a = c1 # a1\<close> show ?thesis by auto
    qed
  qed
  have code: "strip_code_block a \<noteq> []"
    by (rule strip_code_block_nonempty[OF at lt]) (simp add: is_space_def)
  have readme: "strip_code_block b \<noteq> []" if f1t: "CHR 0x60 \<notin> set f1"
  proof -
    define w where "w = drop (length marker) (z @ marker)"
    have "b = drop (length marker) (marker @ b)" by simp
    also have "\<dots> = drop (length marker) (z @ marker @ y)" using zy by simp
    also have "\<dots> = w @ y" by (simp add: w_def)
    finally have bw: "b = w @ y" .
    have "set w \<subseteq> set (z @ marker)" unfolding w_def by (rule set_drop_subset)
    with xt xz mt have wt: "CHR 0x60 \<notin> set w" by auto
    have bs: "b = (w @ nl @ f1) @ CHR 0x60 # ''index.html'' @ CHR 0x60 # (f2 @ nl)"
      by (simp add: bw y_def fb)
    have nf: "\<not> contains fence b"
      unfolding bs using wt f1t t2
      by (intro no_fence_two_ticks) (simp_all add: nl_def)
    have "CHR ''#'' \<in> set b" using h by (simp add: bs)
    then have "py_strip b \<noteq> []"
      by (rule py_strip_nonempty) (simp add: is_space_def)
    with nf show ?thesis by (simp add: strip_code_block_def)
  qed
  from sp code readme show ?thesis unfolding ft by blast
qed

text \<open>
  The fallback, when the generator call fails and neither the brief, the round nor the
  checks hold a backquote: \<open>generate_app_code\<close> returns, \<open>index.html\<close> is not empty, and
  \<open>README.md\<close> is not empty when the attachment summary holds no backquote either.
\<close>

theorem fallback_files_nonempty:
  assumes "list_all att_readable (case atts of None \<Rightarrow> [] | Some xs \<Rightarrow> xs)"
    and "list_all (\<lambda>c. is_str c \<and> CHR 0x60 \<notin> set (py_str c))
           (case chks of None \<Rightarrow> [] | Some cs \<Rightarrow> cs)"
    and "CHR 0x60 \<notin> set (py_str brief)" and "CHR 0x60 \<notin> set (py_str rn)"
    and "\<forall>h' q. \<exists>e. try_generate (gen_post world h' q) = Inl e"
  shows "\<exists>code readme sv e1 ev.
      decode_attachments lib world h atts = (Inr sv, e1)
    \<and> generate_app_code lib world h brief atts chks rn prev
        = (Inr \<lparr>g_files = [(''index.html'', code), (''README.md'', readme)],
                g_attachments = sv\<rparr>, ev)
    \<and> code \<noteq> []
    \<and> (CHR 0x60 \<notin> set (fst (summarize_attachment_meta world (h @ e1) sv)) \<longrightarrow> readme \<noteq> [])"
proof -
  obtain sv e1 where d: "decode_attachments lib world h atts = (Inr sv, e1)"
    using decode_attachments_returns[OF assms(1)] by blast
  obtain m e2 where s: "summarize_attachment_meta world (h @ e1) sv = (m, e2)"
    by (cases "summarize_attachment_meta world (h @ e1) sv")
  obtain f1 f2 where fb: "generate_readme_fallback brief chks m rn
                            = Inr (f1 @ CHR 0x60 # ''index.html'' @ CHR 0x60 # f2)"
    and hs: "CHR ''#'' \<in> set f1" and t2: "CHR 0x60 \<notin> set f2"
    and t1: "CHR 0x60 \<notin> set m \<longrightarrow> CHR 0x60 \<notin> set f1"
    using readme_fallback_shape[OF assms(2,3,4)] by blast
  define fb where "fb = f1 @ CHR 0x60 # ''index.html'' @ CHR 0x60 # f2"
  define prm where "prm = \<lparr>p_round = rn, p_brief = brief, p_context = context_note rn prev,
                          p_meta = m, p_checks = (case chks of None \<Rightarrow> [] | Some cs \<Rightarrow> cs)\<rparr>"
  obtain e where tr: "try_generate (gen_post world (h @ e1 @ e2) prm) = Inl e"
    using assms(5) by blast
  obtain a b where sp: "split_once marker (fallback_text brief fb) = Some (a, b)"
    and code: "strip_code_block a \<noteq> []"
    and readme: "CHR 0x60 \<notin> set f1 \<longrightarrow> strip_code_block b \<noteq> []"
    using fallback_split[OF assms(3) fb_def hs t2] by blast
  have g: "generate_app_code lib world h brief atts chks rn prev
        = (Inr \<lparr>g_files = [(''index.html'', strip_code_block a),
                            (''README.md'', strip_code_block b)], g_attachments = sv\<rparr>,
           e1 @ e2 @ [EvGenerate prm]
           @ [EvLocalWrite ''generated_app/index.html'' (strip_code_block a),
              EvLocalWrite ''generated_app/README.md'' (strip_code_block b)])"
    using d s fb tr sp
    by (simp add: generate_app_code_def Let_def prm_def text_after_try_def fb_def)
  have "CHR 0x60 \<notin> set (fst (summarize_attachment_meta world (h @ e1) sv))
          \<longrightarrow> strip_code_block b \<noteq> []"
    using s t1 readme by simp
  with d g code show ?thesis by blast
qed

theorem fallback_files_nonempty_witness:
  "\<exists>code readme.
      fst (generate_app_code lib0 env0 [] (JStr ''a todo app'') None
             (Some [JStr ''has add button'']) (JInt 1) None)
      = Inr \<lparr>g_files = [(''index.html'', code), (''README.md'', readme)], g_attachments = []\<rparr>
    \<and> code \<noteq> [] \<and> readme \<noteq> []"
proof -
  have a: "list_all att_readable (case None of None \<Rightarrow> [] | Some xs \<Rightarrow> xs)" by simp
  have c: "list_all (\<lambda>c. is_str c \<and> CHR 0x60 \<notin> set (py_str c))
             (case Some [JStr ''has add button''] of None \<Rightarrow> [] | Some cs \<Rightarrow> cs)"
    by simp
  have b: "CHR 0x60 \<notin> set (py_str (JStr ''a todo app''))" by simp
  have r: "CHR 0x60 \<notin> set (py_str (JInt 1))"
    by (simp add: str_int_def str_nat_digit digit_char_def)
  have g: "\<forall>h' q. \<exists>e. try_generate (gen_post env0 h' q) = Inl e"
    by (simp add: env0_def try_generate_def)
  have d: "decode_attachments lib0 env0 [] None = (Inr [], [])"
    by (simp add: decode_attachments_def)
  have m: "fst (summarize_attachment_meta env0 ([] @ []) []) = []"
    by (simp add: summarize_attachment_meta_def)
  from fallback_files_nonempty[OF a c b r g, of lib0 "[]" None] d m
  show ?thesis by auto
qed





end
